theory Spec2Isabelle
  imports Complex_Main "HOL-Library.AList"
begin

section \<open>Runtime values\<close>

text \<open>
  A JavaScript number is either \<open>NaN\<close> or a finite value; the resolver does no
  arithmetic on numbers, it only compares them, asks for their \<open>typeof\<close> and turns
  them into text. Infinities and the sign of zero play no part in what follows.
\<close>

datatype number = NaN | Fin rat

text \<open>\<open>a === b\<close> on numbers: \<open>NaN\<close> is not equal to itself.\<close>

fun number_strict_eq :: "number \<Rightarrow> number \<Rightarrow> bool" where
  "number_strict_eq (Fin a) (Fin b) = (a = b)"
| "number_strict_eq _ _ = False"

text \<open>
  The value of a metadata entry, as \<open>addMeta\<close> looks at it: its \<open>typeof\<close>, whether it
  is \<open>null\<close>, and for an object what its \<open>valueOf\<close> method returns. \<open>MObject None\<close>
  is an object without a callable \<open>valueOf\<close>, \<open>MObject (Some v)\<close> one whose
  \<open>valueOf()\<close> returns \<open>v\<close> (a plain object or an array returns an object again,
  a \<open>Number\<close>, \<open>String\<close> or \<open>Boolean\<close> instance returns its primitive).
  \<open>MFunction\<close> stands for the values whose \<open>typeof\<close> is neither \<open>object\<close> nor
  one of the scalar types (functions, symbols, bigints).
\<close>

datatype meta_value =
    MUndefined
  | MNull
  | MBoolean bool
  | MNumber number
  | MString string
  | MObject "meta_value option"
  | MFunction

fun typeof_meta :: "meta_value \<Rightarrow> string" where
  "typeof_meta MUndefined = ''undefined''"
| "typeof_meta MNull = ''object''"
| "typeof_meta (MBoolean _) = ''boolean''"
| "typeof_meta (MNumber _) = ''number''"
| "typeof_meta (MString _) = ''string''"
| "typeof_meta (MObject _) = ''object''"
| "typeof_meta MFunction = ''function''"

text \<open>\<open>Meta\<close> is read through \<open>Object.entries\<close>: the entries in insertion order.\<close>

type_synonym Meta = "(string \<times> meta_value) list"

text \<open>
  \<open>FormattedMeta\<close>, the bag of a formatted part: the entries written so far, in
  insertion order. The bag is the plain object that \<open>addMeta\<close> creates, so
  besides these it has the properties that every plain object inherits.
\<close>

type_synonym FormattedMeta = "(string \<times> meta_value) list"

text \<open>A value the claim calls scalar: a boolean, a number or a string.\<close>

fun is_scalar :: "meta_value \<Rightarrow> bool" where
  "is_scalar (MBoolean _) = True"
| "is_scalar (MNumber _) = True"
| "is_scalar (MString _) = True"
| "is_scalar _ = False"

text \<open>
  What one entry of a merge contributes: \<open>null\<close> stays \<open>null\<close>, an object is replaced
  by what its \<open>valueOf\<close> returns, and the outcome is stored when it is \<open>null\<close> or scalar.
\<close>

fun projection :: "meta_value \<Rightarrow> meta_value option" where
  "projection MNull = Some MNull"
| "projection (MObject (Some v)) = (if is_scalar v then Some v else None)"
| "projection v = (if is_scalar v then Some v else None)"

text \<open>The bag a formatted part has before a merge.\<close>

definition bag_of :: "FormattedMeta option \<Rightarrow> FormattedMeta" where
  "bag_of fm = (case fm of None \<Rightarrow> [] | Some m \<Rightarrow> m)"

section \<open>The data model and the formatted values\<close>

text \<open>
  A runtime value of the scope, of a function's arguments and results. An object is a
  plain object with its own properties in insertion order; what it inherits is the
  host's. A function is known by its name.
\<close>

datatype jsval =
    VUndefined
  | VNull
  | VBoolean bool
  | VNumber number
  | VString string
  | VArray "jsval list"
  | VObject "(string \<times> jsval) list"
  | VFunction string

fun typeof :: "jsval \<Rightarrow> string" where
  "typeof VUndefined = ''undefined''"
| "typeof VNull = ''object''"
| "typeof (VBoolean _) = ''boolean''"
| "typeof (VNumber _) = ''number''"
| "typeof (VString _) = ''string''"
| "typeof (VArray _) = ''object''"
| "typeof (VObject _) = ''object''"
| "typeof (VFunction _) = ''function''"

text \<open>\<open>!val\<close> is \<open>\<not> truthy val\<close>.\<close>

fun truthy :: "jsval \<Rightarrow> bool" where
  "truthy VUndefined = False"
| "truthy VNull = False"
| "truthy (VBoolean b) = b"
| "truthy (VNumber n) = (n \<noteq> NaN \<and> n \<noteq> Fin 0)"
| "truthy (VString s) = (s \<noteq> [])"
| "truthy (VArray _) = True"
| "truthy (VObject _) = True"
| "truthy (VFunction _) = True"

text \<open>
  Modelled from the spec: \<open>data-model.ts\<close> is not among the sources, so the types of
  the data model follow section 3 of the specification and the way
  \<open>format-message.ts\<close> reads them. A literal value is a string or a number. A
  variable reference is a path whose segments are literals or variable references. A
  literal option value is given raw, a variable option value is a variable reference
  (its path and its metadata). A function has a name, argument parts, options and
  metadata; a term has a resource id, a message path, a scope override and metadata.
\<close>

datatype LiteralValue = LString string | LNumber number

datatype Operand =
    Literal LiteralValue "Meta option"
  | Variable "Operand list" "Meta option"

datatype OptionValue =
    OptLiteral LiteralValue
  | OptVariable "Operand list" "Meta option"

type_synonym Options = "(string \<times> OptionValue) list"

datatype Part =
    Operand Operand
  | Function string "Part list" "Options option" "Meta option"
  | Term "string option" "Operand list" "Options option" "Meta option"

type_synonym Pattern = "Part list"

datatype Selector = Selector (selector_value: Part) (selector_default: "LiteralValue option")

datatype SelectCase = SelectCase (case_key: "LiteralValue list") (case_value: Pattern)

datatype Select = Select (select_select: "Selector list") (select_cases: "SelectCase list")

datatype MessageValue = PatternValue Pattern | SelectValue Select

datatype Message = Message (message_meta: "Meta option") (message_value: MessageValue)

text \<open>
  The classes \<open>FormattedDynamic\<close>, \<open>FormattedFallback\<close>, \<open>FormattedLiteral\<close> and
  \<open>FormattedMessage\<close>: the private locales, the value, and the metadata bag (absent until
  a merge creates it).
\<close>

datatype Formatted =
    FormattedDynamic "string list" jsval "FormattedMeta option"
  | FormattedFallback "string list" string "FormattedMeta option"
  | FormattedLiteral "string list" LiteralValue "FormattedMeta option"
  | FormattedMessage "string list" "Formatted list" "FormattedMeta option"

text \<open>What a runtime function returns: a raw value or an instance of \<open>Formatted\<close>.\<close>

datatype retval = Raw jsval | Wrapped Formatted

text \<open>
  What a runtime function throws, as the \<open>catch\<close> block reads it: the \<open>name\<close>,
  \<open>message\<close> and \<open>stack\<close> properties of the caught value.
\<close>

record exn =
  name :: meta_value
  message :: meta_value
  stack :: meta_value

text \<open>
  A thrown value: \<open>undefined\<close> or \<open>null\<close>, of which no property can be read, or any
  other value, with the properties the \<open>catch\<close> block reads (\<open>undefined\<close> where the
  value has none).
\<close>

datatype thrown = ThrownNullish | ThrownValue exn

text \<open>
  What reaches the caller of the resolver instead of a result: the \<open>Error\<close> raised by
  \<open>resolveArgument\<close> for a part that is neither a literal nor a variable, the
  \<open>TypeError\<close> of reading a property of \<open>undefined\<close> or \<open>null\<close>, and a term whose
  resolution does not return.
\<close>

datatype failure = UnsupportedArgument | PropertyOfUndefined | NoReturn

text \<open>
  \<open>RuntimeType\<close> is a type name or an enumerated list of strings; the schema of a
  function's options is one \<open>RuntimeType\<close> for all options or a table by option name.
\<close>

datatype RuntimeType = TypeName string | Enumerated "string list"

datatype OptionsSchema = Uniform RuntimeType | PerOption "(string \<times> RuntimeType) list"

text \<open>
  A registered function: \<open>call(locales, options, ...args)\<close>, which returns or throws,
  and the schema \<open>options\<close>. The \<open>plural\<close> selector is called with \<open>undefined\<close>
  options, hence the \<open>option\<close>.
\<close>

record RuntimeFunction =
  call :: "string list \<Rightarrow> (string \<times> jsval) list option \<Rightarrow> jsval list \<Rightarrow> thrown + retval"
  options :: "OptionsSchema option"

text \<open>
  \<open>Context\<close>: the locales, the scope and the two registries \<open>runtime.format\<close> and
  \<open>runtime.select\<close>, each by the entries it holds itself. \<open>resolveTerm\<close> reads \<open>getMessage\<close> and \<open>extendContext\<close> of
  \<open>format-context.ts\<close>, which is not among the sources, and recurses through the
  messages it finds without bound; the model takes what resolving a term yields in this
  context as the field \<open>resolveTerm\<close>.
\<close>

record Context =
  locales :: "string list"
  scope :: jsval
  runtime_format :: "string \<Rightarrow> RuntimeFunction option"
  runtime_select :: "string \<Rightarrow> RuntimeFunction option"
  resolveTerm :: "Part \<Rightarrow> failure + Formatted"

datatype ResolvedSelector =
  ResolvedSelector (resolved_value: jsval) (resolved_default: LiteralValue)

text \<open>
  What the resolver takes from the JavaScript host and from modules that are not among
  the sources: the conversions between numbers and strings (\<open>String(n)\<close>,
  \<open>n.toLocaleString(locales)\<close>, \<open>Number(s)\<close>), which array index a property key
  denotes, the message and stack of the \<open>TypeError\<close> raised by \<open>rf.call\<close> for an
  \<open>rf\<close> that is \<open>undefined\<close>, \<open>isLiteral\<close> of \<open>data-model.ts\<close> on a resolved
  argument, and \<open>getFormattedSelectMeta\<close> of \<open>detect-grammar.ts\<close>.

  It also takes from the host what objects inherit. \<open>object_prototype\<close> holds the
  properties of \<open>Object.prototype\<close>, which every plain object has besides its own
  (\<open>constructor\<close>, \<open>toString\<close> and so on); \<open>array_prototype\<close> holds those an array
  has before these. \<open>registry_prototype\<close> is what a registry, a plain object, yields
  for a name under which it holds no entry itself: nothing, or the inherited property
  as the resolver uses it, by its \<open>options\<close> and by what \<open>call(...)\<close> on it returns
  or throws. \<open>function_toString\<close> is the text of a function.
\<close>

record host =
  number_toString :: "number \<Rightarrow> string"
  number_toLocaleString :: "string list \<Rightarrow> number \<Rightarrow> string"
  string_toNumber :: "string \<Rightarrow> number"
  array_index :: "string \<Rightarrow> nat option"
  typeError_message :: string
  typeError_stack :: meta_value
  isLiteral_value :: "jsval \<Rightarrow> bool"
  getFormattedSelectMeta :: "Select \<Rightarrow> ResolvedSelector list \<Rightarrow> LiteralValue list \<Rightarrow> Meta option"
  object_prototype :: "(string \<times> jsval) list"
  array_prototype :: "(string \<times> jsval) list"
  registry_prototype :: "string \<Rightarrow> RuntimeFunction option"
  function_toString :: "string \<Rightarrow> string"

section \<open>Merging metadata: \<open>addMeta\<close>\<close>

text \<open>
  \<open>key in obj\<close> for a plain object \<open>obj\<close> is true of its own keys and of the keys
  it inherits; \<open>inherits\<close> is the second half.
\<close>

definition inherits :: "host \<Rightarrow> string \<Rightarrow> bool" where
  "inherits h key \<longleftrightarrow> key \<in> fst ` set (object_prototype h)"

text \<open>One turn of the loop of \<open>addMeta\<close>, for the entry \<open>(key, value)\<close>.\<close>

fun addMeta_entry :: "host \<Rightarrow> FormattedMeta \<Rightarrow> string \<times> meta_value \<Rightarrow> FormattedMeta" where
  "addMeta_entry h fm (key, value) =
     (if key \<in> fst ` set fm \<or> inherits h key then fm
      else if typeof_meta value = ''object'' \<and> value = MNull then fm @ [(key, MNull)]
      else
        (let value' = (case value of MObject (Some v) \<Rightarrow> v | _ \<Rightarrow> value)
         in if typeof_meta value' \<in> {''boolean'', ''number'', ''string''}
            then fm @ [(key, value')]
            else fm))"

text \<open>
  \<open>addMeta(fmt, meta)\<close> on the bag of \<open>fmt\<close>: an absent bag is created empty, then
  every entry of \<open>meta\<close> is visited in order. The result is the new bag of \<open>fmt\<close>.
\<close>

definition addMeta :: "host \<Rightarrow> FormattedMeta option \<Rightarrow> Meta \<Rightarrow> FormattedMeta option" where
  "addMeta h fm meta =
     Some (foldl (addMeta_entry h) (case fm of None \<Rightarrow> [] | Some m \<Rightarrow> m) meta)"

section \<open>Strings of values\<close>

fun join :: "string \<Rightarrow> string list \<Rightarrow> string" where
  "join sep [] = []"
| "join sep [x] = x"
| "join sep (x # y # ys) = x @ sep @ join sep (y # ys)"

text \<open>\<open>String(v)\<close>.\<close>

fun js_String :: "host \<Rightarrow> jsval \<Rightarrow> string" where
  "js_String h VUndefined = ''undefined''"
| "js_String h VNull = ''null''"
| "js_String h (VBoolean b) = (if b then ''true'' else ''false'')"
| "js_String h (VNumber n) = number_toString h n"
| "js_String h (VString s) = s"
| "js_String h (VArray xs) =
     join '','' (map (\<lambda>x. if x = VUndefined \<or> x = VNull then [] else js_String h x) xs)"
| "js_String h (VObject _) = ''[object Object]''"
| "js_String h (VFunction f) = function_toString h f"

text \<open>\<open>xs.join(sep)\<close>: \<open>undefined\<close> and \<open>null\<close> elements give the empty string.\<close>

definition js_join :: "host \<Rightarrow> string \<Rightarrow> jsval list \<Rightarrow> string" where
  "js_join h sep xs =
     join sep (map (\<lambda>x. if x = VUndefined \<or> x = VNull then [] else js_String h x) xs)"

fun literal_value :: "LiteralValue \<Rightarrow> jsval" where
  "literal_value (LString s) = VString s"
| "literal_value (LNumber n) = VNumber n"

text \<open>
  \<open>v.toLocaleString(locales)\<close> where \<open>v\<close> has the method, \<open>String(v)\<close> for
  \<open>undefined\<close> and \<open>null\<close>. Only numbers (and the numbers inside arrays) look at the
  locales; a string returns itself, and a function gives its text.
\<close>

fun toLocaleString :: "host \<Rightarrow> string list \<Rightarrow> jsval \<Rightarrow> string" where
  "toLocaleString h ls (VNumber n) = number_toLocaleString h ls n"
| "toLocaleString h ls (VArray xs) =
     join '','' (map (\<lambda>x. if x = VUndefined \<or> x = VNull then [] else toLocaleString h ls x) xs)"
| "toLocaleString h ls v = js_String h v"

text \<open>\<open>toString()\<close> of each class of formatted value.\<close>

fun toString :: "host \<Rightarrow> Formatted \<Rightarrow> string" where
  "toString h (FormattedDynamic ls v m) = toLocaleString h ls v"
| "toString h (FormattedFallback ls s m) = ''{'' @ s @ ''}''"
| "toString h (FormattedLiteral ls v m) = toLocaleString h ls (literal_value v)"
| "toString h (FormattedMessage ls fps m) = concat (map (toString h) fps)"

text \<open>\<open>valueOf()\<close> of each class of formatted value.\<close>

fun valueOf :: "host \<Rightarrow> Formatted \<Rightarrow> jsval" where
  "valueOf h (FormattedDynamic ls v m) = v"
| "valueOf h (FormattedLiteral ls v m) = literal_value v"
| "valueOf h f = VString (toString h f)"

fun meta_of :: "Formatted \<Rightarrow> FormattedMeta option" where
  "meta_of (FormattedDynamic ls v m) = m"
| "meta_of (FormattedFallback ls s m) = m"
| "meta_of (FormattedLiteral ls v m) = m"
| "meta_of (FormattedMessage ls fps m) = m"

fun set_meta :: "Formatted \<Rightarrow> FormattedMeta option \<Rightarrow> Formatted" where
  "set_meta (FormattedDynamic ls v _) m = FormattedDynamic ls v m"
| "set_meta (FormattedFallback ls s _) m = FormattedFallback ls s m"
| "set_meta (FormattedLiteral ls v _) m = FormattedLiteral ls v m"
| "set_meta (FormattedMessage ls fps _) m = FormattedMessage ls fps m"

text \<open>\<open>addMeta(fmt, meta)\<close> as a function of the formatted value it updates.\<close>

definition addMeta_to :: "host \<Rightarrow> Formatted \<Rightarrow> Meta \<Rightarrow> Formatted" where
  "addMeta_to h fmt meta = set_meta fmt (addMeta h (meta_of fmt) meta)"

text \<open>
  The bag the constructor of \<open>Formatted\<close> leaves: for a value that is not itself an
  instance of \<open>Formatted\<close>, \<open>if (meta) addMeta(this, meta)\<close>.
\<close>

definition construct_meta :: "host \<Rightarrow> Meta option \<Rightarrow> FormattedMeta option" where
  "construct_meta h meta = (case meta of None \<Rightarrow> None | Some m \<Rightarrow> addMeta h None m)"

text \<open>
  The same for a value that is an instance of \<open>Formatted\<close>: its bag is merged first,
  then \<open>meta\<close>.
\<close>

definition construct_meta_from :: "host \<Rightarrow> Formatted \<Rightarrow> Meta option \<Rightarrow> FormattedMeta option" where
  "construct_meta_from h v meta =
     (let m0 = (case meta_of v of None \<Rightarrow> None | Some vm \<Rightarrow> addMeta h None vm)
      in case meta of None \<Rightarrow> m0 | Some m \<Rightarrow> addMeta h m0 m)"

section \<open>Resolving variables\<close>

text \<open>
  The property that an object finds along its prototype chain, given the chain as the
  properties of each prototype in turn: that of the first prototype that has the key,
  \<open>undefined\<close> when none has it.
\<close>

definition inherited_property :: "(string \<times> jsval) list \<Rightarrow> string \<Rightarrow> jsval" where
  "inherited_property chain key = (case map_of chain key of None \<Rightarrow> VUndefined | Some v \<Rightarrow> v)"

text \<open>
  \<open>val[key]\<close> for a \<open>val\<close> that is an object or an array; the key is turned into a
  string first. An own property comes before an inherited one.
\<close>

fun get_property :: "host \<Rightarrow> jsval \<Rightarrow> jsval \<Rightarrow> jsval" where
  "get_property h (VObject props) key =
     (case map_of props (js_String h key) of
        Some v \<Rightarrow> v
      | None \<Rightarrow> inherited_property (object_prototype h) (js_String h key))"
| "get_property h (VArray xs) key =
     (if js_String h key = ''length'' then VNumber (Fin (of_nat (length xs)))
      else case array_index h (js_String h key) of
             Some i \<Rightarrow>
               if i < length xs then xs ! i
               else inherited_property (array_prototype h @ object_prototype h) (js_String h key)
           | None \<Rightarrow>
               inherited_property (array_prototype h @ object_prototype h) (js_String h key))"
| "get_property h _ key = VUndefined"

text \<open>
  \<open>resolveVariable\<close>, with the loop over \<open>var_path\<close> as \<open>walk\<close> (\<open>val\<close> is the
  loop variable) and the fallback text of \<open>fallbackValue\<close> for a variable, whose
  \<open>var_path.map(resolve)\<close> is \<open>resolve_path\<close>. \<open>resolveOperand\<close> is \<open>resolvePart\<close>
  and \<open>resolveOperandArgument\<close> is \<open>resolveArgument\<close>, on the parts a path can hold.
\<close>

fun resolveVariable :: "host \<Rightarrow> Context \<Rightarrow> Operand list \<Rightarrow> Meta option \<Rightarrow> Formatted"
  and resolveOperand :: "host \<Rightarrow> Context \<Rightarrow> Operand \<Rightarrow> Formatted"
  and resolveOperandArgument :: "host \<Rightarrow> Context \<Rightarrow> Operand \<Rightarrow> jsval"
  and walk :: "host \<Rightarrow> Context \<Rightarrow> jsval \<Rightarrow> Operand list \<Rightarrow> jsval"
  and resolve_path :: "host \<Rightarrow> Context \<Rightarrow> Operand list \<Rightarrow> jsval list"
where
  "resolveVariable h ctx var_path meta =
     (let val = walk h ctx (if length var_path > 0 then scope ctx else VUndefined) var_path
      in if val = VUndefined
         then FormattedFallback (locales ctx)
                (''$'' @ js_join h ''.'' (resolve_path h ctx var_path))
                (construct_meta h meta)
         else FormattedDynamic (locales ctx) val (construct_meta h meta))"
| "resolveOperand h ctx (Literal v meta) = FormattedLiteral (locales ctx) v (construct_meta h meta)"
| "resolveOperand h ctx (Variable var_path meta) = resolveVariable h ctx var_path meta"
| "resolveOperandArgument h ctx (Literal v meta) = literal_value v"
| "resolveOperandArgument h ctx (Variable var_path meta) =
     valueOf h (resolveVariable h ctx var_path meta)"
| "walk h ctx val [] = val"
| "walk h ctx val (p # ps) =
     (if \<not> truthy val \<or> typeof val \<noteq> ''object'' then VUndefined
      else walk h ctx (get_property h val (resolveOperandArgument h ctx p)) ps)"
| "resolve_path h ctx [] = []"
| "resolve_path h ctx (p # ps) = valueOf h (resolveOperand h ctx p) # resolve_path h ctx ps"

section \<open>Resolving arguments and options\<close>

fun resolveArgument :: "host \<Rightarrow> Context \<Rightarrow> Part \<Rightarrow> failure + jsval" where
  "resolveArgument h ctx (Operand p) = Inr (resolveOperandArgument h ctx p)"
| "resolveArgument h ctx _ = Inl UnsupportedArgument"

text \<open>\<open>args.map(arg => resolveArgument(ctx, arg))\<close>.\<close>

fun resolveArguments :: "host \<Rightarrow> Context \<Rightarrow> Part list \<Rightarrow> failure + jsval list" where
  "resolveArguments h ctx [] = Inr []"
| "resolveArguments h ctx (a # as) =
     (case resolveArgument h ctx a of
        Inl e \<Rightarrow> Inl e
      | Inr v \<Rightarrow> (case resolveArguments h ctx as of Inl e \<Rightarrow> Inl e | Inr vs \<Rightarrow> Inr (v # vs)))"

text \<open>A \<open>RuntimeType\<close> as a condition: the empty type name is falsy.\<close>

fun expected_truthy :: "RuntimeType \<Rightarrow> bool" where
  "expected_truthy (TypeName s) = (s \<noteq> [])"
| "expected_truthy (Enumerated _) = True"

fun schema_truthy :: "OptionsSchema option \<Rightarrow> bool" where
  "schema_truthy None = False"
| "schema_truthy (Some (Uniform t)) = expected_truthy t"
| "schema_truthy (Some (PerOption _)) = True"

fun getExpected :: "OptionsSchema option \<Rightarrow> string \<Rightarrow> RuntimeType option" where
  "getExpected None key = None"
| "getExpected (Some (Uniform t)) key = Some t"
| "getExpected (Some (PerOption tbl)) key = map_of tbl key"

text \<open>The value \<open>res\<close> of one option, for the expected type \<open>ty\<close>.\<close>

fun option_res :: "host \<Rightarrow> Context \<Rightarrow> RuntimeType \<Rightarrow> OptionValue \<Rightarrow> jsval" where
  "option_res h ctx ty (OptVariable var_path meta) =
     valueOf h (resolveVariable h ctx var_path meta)"
| "option_res h ctx ty (OptLiteral v) =
     (if ty = TypeName ''boolean'' then
        (if v = LString ''true'' then VBoolean True
         else if v = LString ''false'' then VBoolean False
         else literal_value v)
      else if ty = TypeName ''number'' then
        (case v of LNumber n \<Rightarrow> VNumber n | LString s \<Rightarrow> VNumber (string_toNumber h s))
      else literal_value v)"

text \<open>The condition under which \<open>opt[key] = res\<close> runs.\<close>

definition option_kept :: "RuntimeType \<Rightarrow> jsval \<Rightarrow> bool" where
  "option_kept ty res =
     (ty = TypeName ''any'' \<or> ty = TypeName (typeof res) \<or>
      (case ty of
         Enumerated allowed \<Rightarrow> (case res of VString s \<Rightarrow> s \<in> set allowed | _ \<Rightarrow> False)
       | TypeName _ \<Rightarrow> False))"

text \<open>One turn of the loop of \<open>resolveOptions\<close>.\<close>

fun resolveOptions_entry ::
  "host \<Rightarrow> Context \<Rightarrow> OptionsSchema option \<Rightarrow> (string \<times> jsval) list \<Rightarrow> string \<times> OptionValue
     \<Rightarrow> (string \<times> jsval) list" where
  "resolveOptions_entry h ctx expected opt (key, value) =
     (case getExpected expected key of
        None \<Rightarrow> opt
      | Some ty \<Rightarrow>
          if \<not> expected_truthy ty \<or> ty = TypeName ''never'' then opt
          else
            (let res = option_res h ctx ty value
             in if option_kept ty res then AList.update key res opt else opt))"

definition resolveOptions ::
  "host \<Rightarrow> Context \<Rightarrow> Options option \<Rightarrow> OptionsSchema option \<Rightarrow> (string \<times> jsval) list" where
  "resolveOptions h ctx opts expected =
     (case opts of
        None \<Rightarrow> []
      | Some entries \<Rightarrow>
          if schema_truthy expected then foldl (resolveOptions_entry h ctx expected) [] entries
          else [])"

section \<open>Resolving parts\<close>

text \<open>
  \<open>registry[func]\<close> for a registry that is a plain object: the entry it holds itself,
  or else what it inherits under that name.
\<close>

definition registry_lookup ::
  "host \<Rightarrow> (string \<Rightarrow> RuntimeFunction option) \<Rightarrow> string \<Rightarrow> RuntimeFunction option" where
  "registry_lookup h registry func =
     (case registry func of Some f \<Rightarrow> Some f | None \<Rightarrow> registry_prototype h func)"

text \<open>The \<open>TypeError\<close> of \<open>rf.call\<close> when \<open>rf\<close> is \<open>undefined\<close>.\<close>

definition typeError :: "host \<Rightarrow> exn" where
  "typeError h = \<lparr>name = MString ''TypeError'', message = MString (typeError_message h),
                  stack = typeError_stack h\<rparr>"

text \<open>The metadata the \<open>catch\<close> block of \<open>resolveFormatFunction\<close> builds.\<close>

definition error_meta :: "exn \<Rightarrow> Meta" where
  "error_meta e = [(''error_name'', name e), (''error_message'', message e),
                   (''error_stack'', stack e)]"

text \<open>The text \<open>key: value\<close> of one option; a variable is an object.\<close>

fun option_text :: "host \<Rightarrow> string \<times> OptionValue \<Rightarrow> string" where
  "option_text h (key, OptLiteral v) = key @ '': '' @ js_String h (literal_value v)"
| "option_text h (key, OptVariable _ _) = key @ '': [object Object]''"

text \<open>
  \<open>resolvePart\<close>, \<open>resolveFormatFunction\<close> and \<open>fallbackValue\<close>;
  \<open>resolve_values\<close> is \<open>args.map(resolve)\<close> of \<open>fallbackValue\<close>. The branch of
  \<open>resolvePart\<close> that throws for an unsupported part has no part to run on. In the
  \<open>catch\<close> block the fallback is built first; then the properties of the caught value
  are read, which raises when that value is \<open>undefined\<close> or \<open>null\<close>.
\<close>

fun resolvePart :: "host \<Rightarrow> Context \<Rightarrow> Part \<Rightarrow> failure + Formatted"
  and resolveFormatFunction :: "host \<Rightarrow> Context \<Rightarrow> Part \<Rightarrow> failure + Formatted"
  and fallbackValue :: "host \<Rightarrow> Context \<Rightarrow> Part \<Rightarrow> failure + string"
  and resolve_values :: "host \<Rightarrow> Context \<Rightarrow> Part list \<Rightarrow> failure + jsval list"
where
  "resolvePart h ctx (Operand (Literal v meta)) =
     Inr (FormattedLiteral (locales ctx) v (construct_meta h meta))"
| "resolvePart h ctx (Operand (Variable var_path meta)) =
     Inr (resolveVariable h ctx var_path meta)"
| "resolvePart h ctx (Function func args opts meta) =
     resolveFormatFunction h ctx (Function func args opts meta)"
| "resolvePart h ctx (Term res_id msg_path sc meta) =
     resolveTerm ctx (Term res_id msg_path sc meta)"
| "resolveFormatFunction h ctx (Function func args opts meta) =
     (let rf = registry_lookup h (runtime_format ctx) func in
      case resolveArguments h ctx args of
        Inl e \<Rightarrow> Inl e
      | Inr fnArgs \<Rightarrow>
          (let fnOpt = resolveOptions h ctx opts (case rf of None \<Rightarrow> None | Some f \<Rightarrow> options f) in
           case (case rf of None \<Rightarrow> Inl (ThrownValue (typeError h))
                          | Some f \<Rightarrow> call f (locales ctx) (Some fnOpt) fnArgs) of
             Inr (Wrapped (FormattedLiteral ls v m)) \<Rightarrow>
               Inr (FormattedDynamic (locales ctx) (literal_value v)
                      (construct_meta_from h (FormattedLiteral ls v m) meta))
           | Inr (Wrapped val) \<Rightarrow>
               Inr (case meta of None \<Rightarrow> val | Some m \<Rightarrow> addMeta_to h val m)
           | Inr (Raw val) \<Rightarrow> Inr (FormattedDynamic (locales ctx) val (construct_meta h meta))
           | Inl error \<Rightarrow>
               (case fallbackValue h ctx (Function func args opts meta) of
                  Inl e \<Rightarrow> Inl e
                | Inr text \<Rightarrow>
                    (case error of
                       ThrownNullish \<Rightarrow> Inl PropertyOfUndefined
                     | ThrownValue err \<Rightarrow>
                         Inr (addMeta_to h
                                (FormattedFallback (locales ctx) text (construct_meta h meta))
                                (error_meta err))))))"
| "fallbackValue h ctx (Operand (Literal v meta)) = Inr (js_String h (literal_value v))"
| "fallbackValue h ctx (Operand (Variable var_path meta)) =
     Inr (''$'' @ js_join h ''.'' (resolve_path h ctx var_path))"
| "fallbackValue h ctx (Function func args opts meta) =
     (case resolve_values h ctx args of
        Inl e \<Rightarrow> Inl e
      | Inr vals \<Rightarrow>
          Inr (func @ ''('' @
               join '', '' (map (\<lambda>x. if x = VUndefined \<or> x = VNull then [] else js_String h x) vals
                            @ (case opts of None \<Rightarrow> [] | Some entries \<Rightarrow> map (option_text h) entries))
               @ '')''))"
| "fallbackValue h ctx (Term res_id msg_path sc meta) =
     (let name0 = js_join h ''.'' (resolve_path h ctx msg_path);
          name1 = (case res_id of None \<Rightarrow> name0
                   | Some r \<Rightarrow> if r = [] then name0 else r @ ''::'' @ name0)
      in case sc of
           None \<Rightarrow> Inr (''-'' @ name1)
         | Some entries \<Rightarrow>
             Inr (''-'' @ name1 @ ''('' @
                  join '', '' (map (\<lambda>(key, value). key @ '': '' @
                       (case value of
                          OptLiteral v \<Rightarrow> js_String h (literal_value v)
                        | OptVariable var_path m \<Rightarrow>
                            js_String h (valueOf h (resolveVariable h ctx var_path m)))) entries)
                  @ '')''))"
| "resolve_values h ctx [] = Inr []"
| "resolve_values h ctx (p # ps) =
     (case resolvePart h ctx p of
        Inl e \<Rightarrow> Inl e
      | Inr f \<Rightarrow> (case resolve_values h ctx ps of
                    Inl e \<Rightarrow> Inl e
                  | Inr vs \<Rightarrow> Inr (valueOf h f # vs)))"

text \<open>\<open>pattern.map(part => resolvePart(ctx, part))\<close>.\<close>

fun resolveParts :: "host \<Rightarrow> Context \<Rightarrow> Pattern \<Rightarrow> failure + Formatted list" where
  "resolveParts h ctx [] = Inr []"
| "resolveParts h ctx (p # ps) =
     (case resolvePart h ctx p of
        Inl e \<Rightarrow> Inl e
      | Inr f \<Rightarrow> (case resolveParts h ctx ps of Inl e \<Rightarrow> Inl e | Inr fs \<Rightarrow> Inr (f # fs)))"

section \<open>Resolving a select and formatting a message\<close>

text \<open>
  \<open>resolveSelectFunction\<close>: the selector function is looked up in \<open>runtime.select\<close>;
  when the call throws (also when nothing is found), the first resolved argument stands
  in, as it is or as a string.
\<close>

fun resolveSelectFunction :: "host \<Rightarrow> Context \<Rightarrow> Part \<Rightarrow> failure + retval" where
  "resolveSelectFunction h ctx (Function func args opts meta) =
     (let fn = registry_lookup h (runtime_select ctx) func in
      case resolveArguments h ctx args of
        Inl e \<Rightarrow> Inl e
      | Inr fnArgs \<Rightarrow>
          (let fnOpt = resolveOptions h ctx opts (case fn of None \<Rightarrow> None | Some f \<Rightarrow> options f) in
           case (case fn of None \<Rightarrow> Inl (ThrownValue (typeError h))
                          | Some f \<Rightarrow> call f (locales ctx) (Some fnOpt) fnArgs) of
             Inr r \<Rightarrow> Inr r
           | Inl _ \<Rightarrow>
               (let a0 = (case fnArgs of [] \<Rightarrow> VUndefined | a # _ \<Rightarrow> a)
                in Inr (Raw (if isLiteral_value h a0 then a0 else VString (js_String h a0))))))"
| "resolveSelectFunction h ctx _ = Inl PropertyOfUndefined"

text \<open>\<open>r instanceof Formatted ? r.valueOf() : r\<close>.\<close>

fun unwrap :: "host \<Rightarrow> retval \<Rightarrow> jsval" where
  "unwrap h (Wrapped f) = valueOf h f"
| "unwrap h (Raw v) = v"

fun isArray :: "jsval \<Rightarrow> bool" where
  "isArray (VArray _) = True"
| "isArray _ = False"

text \<open>
  The function that \<open>select.select.map\<close> applies to each selector. \<open>plural\<close> is
  called when it is an object with a \<open>call\<close> function, which is what a registered
  function is; \<open>Object.prototype\<close> has no property of that name.
\<close>

definition resolveSelector :: "host \<Rightarrow> Context \<Rightarrow> Selector \<Rightarrow> failure + ResolvedSelector" where
  "resolveSelector h ctx s =
     (case (case selector_value s of
              Function func args opts meta \<Rightarrow>
                resolveSelectFunction h ctx (Function func args opts meta)
            | p \<Rightarrow> (case resolvePart h ctx p of Inl e \<Rightarrow> Inl e | Inr f \<Rightarrow> Inr (Wrapped f))) of
        Inl e \<Rightarrow> Inl e
      | Inr r \<Rightarrow>
          (let v = unwrap h r;
               value =
                 (if typeof v = ''number'' then
                    (case runtime_select ctx ''plural'' of
                       Some plural \<Rightarrow>
                         (case call plural (locales ctx) None [v] of
                            Inr r' \<Rightarrow> unwrap h r'
                          | Inl _ \<Rightarrow> v)
                     | None \<Rightarrow> v)
                  else if typeof v = ''string'' \<or> isArray v then v
                  else VString (js_String h v))
           in Inr (ResolvedSelector value
                     (case selector_default s of
                        None \<Rightarrow> LString ''other''
                      | Some d \<Rightarrow> if truthy (literal_value d) then d else LString ''other''))))"

fun resolveSelectors :: "host \<Rightarrow> Context \<Rightarrow> Selector list \<Rightarrow> failure + ResolvedSelector list" where
  "resolveSelectors h ctx [] = Inr []"
| "resolveSelectors h ctx (s # ss) =
     (case resolveSelector h ctx s of
        Inl e \<Rightarrow> Inl e
      | Inr r \<Rightarrow> (case resolveSelectors h ctx ss of Inl e \<Rightarrow> Inl e | Inr rs \<Rightarrow> Inr (r # rs)))"

text \<open>\<open>k === x\<close> for a key \<open>k\<close>, which is a string or a number.\<close>

fun strict_eq :: "LiteralValue \<Rightarrow> jsval \<Rightarrow> bool" where
  "strict_eq (LString a) (VString b) = (a = b)"
| "strict_eq (LNumber a) (VNumber b) = number_strict_eq a b"
| "strict_eq _ _ = False"

text \<open>\<open>xs.includes(k)\<close>, which finds \<open>NaN\<close> as well.\<close>

fun same_value_zero :: "LiteralValue \<Rightarrow> jsval \<Rightarrow> bool" where
  "same_value_zero (LString a) (VString b) = (a = b)"
| "same_value_zero (LNumber a) (VNumber b) = (a = b)"
| "same_value_zero _ _ = False"

fun array_includes :: "jsval \<Rightarrow> LiteralValue \<Rightarrow> bool" where
  "array_includes (VArray xs) k = (\<exists>x \<in> set xs. same_value_zero k x)"
| "array_includes _ k = False"

text \<open>The test of one key \<open>k\<close> against the resolved selector \<open>r\<close>.\<close>

definition key_matches :: "LiteralValue \<Rightarrow> ResolvedSelector \<Rightarrow> bool" where
  "key_matches k r =
     (strict_eq k (literal_value (resolved_default r)) \<or> strict_eq k (resolved_value r) \<or>
      (isArray (resolved_value r) \<and> array_includes (resolved_value r) k))"

text \<open>
  \<open>key.every((k, i) => ...)\<close> from index \<open>i\<close> on: it stops at the first key that does
  not match, and reading \<open>r.default\<close> of a missing \<open>res[i]\<close> raises.
\<close>

fun every_from :: "nat \<Rightarrow> LiteralValue list \<Rightarrow> ResolvedSelector list \<Rightarrow> failure + bool" where
  "every_from i [] res = Inr True"
| "every_from i (k # ks) res =
     (if i < length res then
        (if key_matches k (res ! i) then every_from (Suc i) ks res else Inr False)
      else Inl PropertyOfUndefined)"

text \<open>
  The loop over \<open>select.cases\<close>: the pattern of the first case whose key passes, with
  that key, or the empty pattern.
\<close>

fun scan_cases ::
  "ResolvedSelector list \<Rightarrow> SelectCase list \<Rightarrow> failure + (Pattern \<times> LiteralValue list option)" where
  "scan_cases res [] = Inr ([], None)"
| "scan_cases res (c # cs) =
     (case every_from 0 (case_key c) res of
        Inl e \<Rightarrow> Inl e
      | Inr True \<Rightarrow> Inr (case_value c, Some (case_key c))
      | Inr False \<Rightarrow> scan_cases res cs)"

text \<open>
  \<open>resolveSelect\<close>, returning the pattern and the metadata handed to \<open>onMeta\<close>, as
  \<open>formatToParts\<close> calls it.
\<close>

definition resolveSelect :: "host \<Rightarrow> Context \<Rightarrow> Select \<Rightarrow> failure + (Pattern \<times> Meta option)" where
  "resolveSelect h ctx sel =
     (case resolveSelectors h ctx (select_select sel) of
        Inl e \<Rightarrow> Inl e
      | Inr res \<Rightarrow>
          (case scan_cases res (select_cases sel) of
             Inl e \<Rightarrow> Inl e
           | Inr (value, None) \<Rightarrow> Inr (value, None)
           | Inr (value, Some key) \<Rightarrow> Inr (value, getFormattedSelectMeta h sel res key)))"

definition formatToParts :: "host \<Rightarrow> Context \<Rightarrow> Message \<Rightarrow> failure + Formatted list" where
  "formatToParts h ctx msg =
     (case (case message_value msg of
              SelectValue sel \<Rightarrow> resolveSelect h ctx sel
            | PatternValue value \<Rightarrow> Inr (value, None)) of
        Inl e \<Rightarrow> Inl e
      | Inr (pattern, fsm) \<Rightarrow>
          (case resolveParts h ctx pattern of
             Inl e \<Rightarrow> Inl e
           | Inr res \<Rightarrow>
               if message_meta msg \<noteq> None \<or> fsm \<noteq> None then
                 (let fm = FormattedMessage (locales ctx) res (construct_meta h (message_meta msg))
                  in Inr [case fsm of None \<Rightarrow> fm | Some m \<Rightarrow> addMeta_to h fm m])
               else Inr res))"

definition formatToString :: "host \<Rightarrow> Context \<Rightarrow> Message \<Rightarrow> failure + string" where
  "formatToString h ctx msg =
     (case formatToParts h ctx msg of
        Inl e \<Rightarrow> Inl e
      | Inr fps \<Rightarrow> Inr (concat (map (toString h) fps)))"

section \<open>The claims' own notions\<close>








text \<open>
  The entries a merge can add: each entry of \<open>meta\<close> whose key the bag does not
  inherit, with its projection, if any.
\<close>

definition projected :: "host \<Rightarrow> Meta \<Rightarrow> FormattedMeta" where
  "projected h meta =
     List.map_filter
       (\<lambda>(k, v). if inherits h k then None else map_option (Pair k) (projection v)) meta"

text \<open>
  A key tuple fully matches the resolved selectors when, at every selector index, the key
  equals the selector's resolved default, or equals its resolved value exactly, or the
  resolved value is an array that has the key as a member.
\<close>

definition fully_matches :: "ResolvedSelector list \<Rightarrow> LiteralValue list \<Rightarrow> bool" where
  "fully_matches res key =
     (\<forall>i < length res.
        strict_eq (key ! i) (literal_value (resolved_default (res ! i))) \<or>
        strict_eq (key ! i) (resolved_value (res ! i)) \<or>
        (isArray (resolved_value (res ! i)) \<and> array_includes (resolved_value (res ! i)) (key ! i)))"

section \<open>A sample host and context\<close>

text \<open>
  Concrete values for the parameters of the model, on which the theorems are tried out.
  The sample host renders numbers the way a JavaScript engine does for the whole numbers
  used below.
\<close>

text \<open>Decimal digits of a natural number.\<close>

fun decimal :: "nat \<Rightarrow> string" where
  "decimal n = (if n < 10 then [''0123456789'' ! n]
                else decimal (n div 10) @ [''0123456789'' ! (n mod 10)])"

text \<open>Digits in groups of three, from the right.\<close>

fun grouped :: "char \<Rightarrow> string \<Rightarrow> string" where
  "grouped sep ds = (if length ds \<le> 3 then ds
     else grouped sep (take (length ds - 3) ds) @ sep # drop (length ds - 3) ds)"

definition sample_number_toString :: "number \<Rightarrow> string" where
  "sample_number_toString n =
     (case n of NaN \<Rightarrow> ''NaN''
      | Fin q \<Rightarrow> (if q < 0 then ''-'' else []) @ decimal (nat \<bar>\<lfloor>q\<rfloor>\<bar>))"

definition sample_number_toLocaleString :: "string list \<Rightarrow> number \<Rightarrow> string" where
  "sample_number_toLocaleString ls n =
     (case n of NaN \<Rightarrow> ''NaN''
      | Fin q \<Rightarrow> (if q < 0 then ''-'' else []) @
          grouped (if ls \<noteq> [] \<and> hd ls = ''de'' then CHR ''.'' else CHR '','')
            (decimal (nat \<bar>\<lfloor>q\<rfloor>\<bar>)))"

fun digit_value :: "char \<Rightarrow> nat option" where
  "digit_value c = (if c \<in> set ''0123456789'' then Some (of_char c - 48) else None)"

fun parse_decimal :: "nat \<Rightarrow> string \<Rightarrow> nat option" where
  "parse_decimal acc [] = Some acc"
| "parse_decimal acc (c # cs) =
     (case digit_value c of None \<Rightarrow> None | Some d \<Rightarrow> parse_decimal (10 * acc + d) cs)"

text \<open>
  The properties of \<open>Object.prototype\<close> in an engine that nothing has added to: eleven
  functions, and \<open>__proto__\<close>, which for a plain object is \<open>Object.prototype\<close> itself,
  an object whose own \<open>__proto__\<close> is \<open>null\<close>.
\<close>

definition sample_object_methods :: "(string \<times> jsval) list" where
  "sample_object_methods =
     [(''constructor'', VFunction ''Object''),
      (''__defineGetter__'', VFunction ''__defineGetter__''),
      (''__defineSetter__'', VFunction ''__defineSetter__''),
      (''hasOwnProperty'', VFunction ''hasOwnProperty''),
      (''__lookupGetter__'', VFunction ''__lookupGetter__''),
      (''__lookupSetter__'', VFunction ''__lookupSetter__''),
      (''isPrototypeOf'', VFunction ''isPrototypeOf''),
      (''propertyIsEnumerable'', VFunction ''propertyIsEnumerable''),
      (''toString'', VFunction ''toString''),
      (''valueOf'', VFunction ''valueOf''),
      (''toLocaleString'', VFunction ''toLocaleString'')]"

definition sample_object_prototype :: "(string \<times> jsval) list" where
  "sample_object_prototype =
     sample_object_methods
     @ [(''__proto__'', VObject (sample_object_methods @ [(''__proto__'', VNull)]))]"

text \<open>
  What \<open>rf.call(locales, options, ...args)\<close> does for an \<open>rf\<close> that a registry
  inherits from \<open>Object.prototype\<close>: for a function this is \<open>Function.prototype.call\<close>,
  which runs the function on the locales, an array; \<open>__proto__\<close> is no function and has
  no \<open>call\<close>. None of them has \<open>options\<close>.
\<close>

definition not_a_function :: exn where
  "not_a_function = \<lparr>name = MString ''TypeError'', message = MString ''rf.call is not a function'',
                      stack = MString ''TypeError: rf.call is not a function''\<rparr>"

definition sample_inherited_call ::
  "string \<Rightarrow> string list \<Rightarrow> (string \<times> jsval) list option \<Rightarrow> jsval list \<Rightarrow> thrown + retval" where
  "sample_inherited_call func ls opts args =
     (if func = ''constructor'' then
        Inr (Raw (case opts of None \<Rightarrow> VObject [] | Some entries \<Rightarrow> VObject entries))
      else if func = ''toString'' then Inr (Raw (VString ''[object Array]''))
      else if func = ''toLocaleString'' then Inr (Raw (VString (join '','' ls)))
      else if func = ''valueOf'' then Inr (Raw (VArray (map VString ls)))
      else if func \<in> {''hasOwnProperty'', ''isPrototypeOf'', ''propertyIsEnumerable''} then
        Inr (Raw (VBoolean False))
      else if func \<in> {''__lookupGetter__'', ''__lookupSetter__''} then Inr (Raw VUndefined)
      else if func \<in> {''__defineGetter__'', ''__defineSetter__''} then
        (case args of
           VFunction f # rest \<Rightarrow> Inr (Raw VUndefined)
         | _ \<Rightarrow> Inl (ThrownValue
                      \<lparr>name = MString ''TypeError'',
                       message = MString (''Object.prototype.'' @ func @ '': Expecting function''),
                       stack = MString (''TypeError: Object.prototype.'' @ func
                                        @ '': Expecting function'')\<rparr>))
      else Inl (ThrownValue not_a_function))"

definition sample_registry_prototype :: "string \<Rightarrow> RuntimeFunction option" where
  "sample_registry_prototype func =
     (if func \<in> fst ` set sample_object_prototype
      then Some \<lparr>call = sample_inherited_call func, options = None\<rparr>
      else None)"

text \<open>
  The sample host: whole numbers print in decimal, \<open>toLocaleString\<close> groups the digits
  with a comma, or with a full stop when the first locale is \<open>de\<close>, \<open>Number\<close> reads
  a run of digits and gives \<open>NaN\<close> for other text, and \<open>rf.call\<close> for an \<open>rf\<close> that
  is \<open>undefined\<close> raises a \<open>TypeError\<close> with the message below (of a stack trace
  the sample keeps the first line). The prototypes are
  those above; of what an array inherits before them the sample has the constructor and
  \<open>join\<close> only, and no array is indexed by name below.
\<close>

definition sample_typeError_message :: string where
  "sample_typeError_message =
     ''Cannot read properties of undefined (reading '' @ [CHR 0x27] @ ''call'' @ [CHR 0x27] @ '')''"

definition sample_host :: host where
  "sample_host =
     \<lparr>number_toString = sample_number_toString,
      number_toLocaleString = sample_number_toLocaleString,
      string_toNumber = (\<lambda>s. case parse_decimal 0 s of None \<Rightarrow> NaN | Some n \<Rightarrow> Fin (of_nat n)),
      array_index = (\<lambda>s. if s = [] then None else parse_decimal 0 s),
      typeError_message = sample_typeError_message,
      typeError_stack = MString (''TypeError: '' @ sample_typeError_message),
      isLiteral_value = (\<lambda>v. typeof v = ''string'' \<or> typeof v = ''number''),
      getFormattedSelectMeta = (\<lambda>sel res key. None),
      object_prototype = sample_object_prototype,
      array_prototype = [(''constructor'', VFunction ''Array''), (''join'', VFunction ''join'')],
      registry_prototype = sample_registry_prototype,
      function_toString = (\<lambda>f. ''function '' @ f @ ''() { [native code] }'')\<rparr>"

text \<open>
  The sample context: the locale \<open>en\<close>, an empty scope, no registered function, and
  terms that do not resolve.
\<close>

definition sample_context :: Context where
  "sample_context =
     \<lparr>locales = [''en''], scope = VObject [],
      runtime_format = (\<lambda>func. None), runtime_select = (\<lambda>func. None),
      resolveTerm = (\<lambda>term. Inl NoReturn)\<rparr>"

text \<open>
  A format function that always throws a \<open>RangeError\<close>, one whose body is
  \<open>throw undefined\<close>, a \<open>plural\<close> selector that maps \<open>1\<close> to \<open>one\<close> and
  everything else to \<open>other\<close>, and the sample context with these registered (the first
  two as \<open>fail\<close> and \<open>bare\<close>).
\<close>

definition failing_function :: RuntimeFunction where
  "failing_function =
     \<lparr>call = (\<lambda>ls opts args.
               Inl (ThrownValue \<lparr>name = MString ''RangeError'', message = MString ''out of range'',
                                  stack = MString ''RangeError: out of range''\<rparr>)),
      options = Some (Uniform (TypeName ''any''))\<rparr>"

definition throwing_undefined :: RuntimeFunction where
  "throwing_undefined = \<lparr>call = (\<lambda>ls opts args. Inl ThrownNullish), options = None\<rparr>"

definition sample_plural :: RuntimeFunction where
  "sample_plural =
     \<lparr>call = (\<lambda>ls opts args. Inr (Raw (VString (if args = [VNumber (Fin 1)] then ''one'' else ''other'')))),
      options = None\<rparr>"

definition sample_runtime :: Context where
  "sample_runtime =
     sample_context
       \<lparr>runtime_format := (\<lambda>func. if func = ''fail'' then Some failing_function
                                  else if func = ''bare'' then Some throwing_undefined else None),
        runtime_select := (\<lambda>func. if func = ''plural'' then Some sample_plural else None)\<rparr>"

section \<open>The placeholder parser\<close>

text \<open>
  A parse error is an object with a type, a start and, by type, an end or a character:
  \<open>missing-char\<close> has \<open>char\<close> and \<open>start\<close>, \<open>extra-content\<close> and \<open>parse-error\<close>
  have \<open>start\<close> and \<open>end\<close>, \<open>empty-token\<close> has \<open>start\<close> (a helper may give it an
  \<open>end\<close> as well).
\<close>

datatype ParseError =
    MissingChar char nat
  | ExtraContent nat nat
  | EmptyToken nat "nat option"
  | ParseErr nat nat

fun error_start :: "ParseError \<Rightarrow> nat" where
  "error_start (MissingChar c s) = s"
| "error_start (ExtraContent s e) = s"
| "error_start (EmptyToken s e) = s"
| "error_start (ParseErr s e) = s"

text \<open>
  \<open>LiteralParsed\<close>, \<open>VariableRefParsed\<close> and \<open>NmtokenParsed\<close>: start, end and the
  value or name.
\<close>

datatype ValueParsed =
    LiteralParsed nat nat string
  | VariableRefParsed nat nat string
  | NmtokenParsed nat nat string

fun value_start :: "ValueParsed \<Rightarrow> nat" where
  "value_start (LiteralParsed s e v) = s"
| "value_start (VariableRefParsed s e v) = s"
| "value_start (NmtokenParsed s e v) = s"

fun value_end :: "ValueParsed \<Rightarrow> nat" where
  "value_end (LiteralParsed s e v) = e"
| "value_end (VariableRefParsed s e v) = e"
| "value_end (NmtokenParsed s e v) = e"

datatype OptionParsed =
  OptionParsed (option_start: nat) (option_end: nat) (option_name: string) (option_value: ValueParsed)

text \<open>
  The body of a placeholder: an operand on its own, an expression (with its operand, if
  any), a markup start, a markup end (which has neither operand nor options), or junk.
\<close>

datatype BodyParsed =
    OperandBody ValueParsed
  | ExpressionParsed "ValueParsed option" nat nat string "OptionParsed list"
  | MarkupStartParsed nat nat string "OptionParsed list"
  | MarkupEndParsed nat nat string
  | JunkParsed nat nat string

fun body_end :: "BodyParsed \<Rightarrow> nat" where
  "body_end (OperandBody v) = value_end v"
| "body_end (ExpressionParsed operand s e nm opts) = e"
| "body_end (MarkupStartParsed s e nm opts) = e"
| "body_end (MarkupEndParsed s e nm) = e"
| "body_end (JunkParsed s e source) = e"

datatype PlaceholderParsed =
  PlaceholderParsed (placeholder_start: nat) (placeholder_end: nat) (placeholder_body: BodyParsed)

text \<open>
  \<open>names.js\<close>, \<open>util.js\<close> and \<open>values.js\<close> are not among the sources: the lexical
  helpers that \<open>placeholder.ts\<close> imports are parameters of the model. A helper that is
  handed the error list is given by the node it returns and the errors it pushes.
\<close>

record lexer =
  whitespaces :: "string \<Rightarrow> nat \<Rightarrow> nat"
  parseNameValue :: "string \<Rightarrow> nat \<Rightarrow> string"
  parseNmtoken :: "string \<Rightarrow> nat \<Rightarrow> ValueParsed \<times> ParseError list"
  parseLiteral :: "string \<Rightarrow> nat \<Rightarrow> ValueParsed \<times> ParseError list"
  parseVariable :: "string \<Rightarrow> nat \<Rightarrow> ValueParsed \<times> ParseError list"

text \<open>\<open>src[pos]\<close>, which is \<open>undefined\<close> past the end.\<close>

definition char_at :: "string \<Rightarrow> nat \<Rightarrow> char option" where
  "char_at src pos = (if pos < length src then Some (src ! pos) else None)"

text \<open>\<open>src.substring(a, b)\<close> for \<open>a \<le> b\<close>.\<close>

definition substring :: "string \<Rightarrow> nat \<Rightarrow> nat \<Rightarrow> string" where
  "substring src a b = take (b - a) (drop a src)"

text \<open>\<open>parseOption\<close>: the option and the error list after it.\<close>

definition parseOption ::
  "lexer \<Rightarrow> string \<Rightarrow> nat \<Rightarrow> ParseError list \<Rightarrow> OptionParsed \<times> ParseError list" where
  "parseOption L src start errors =
     (let nm = parseNameValue L src start;
          pos0 = start + length nm;
          pos1 = pos0 + whitespaces L src pos0;
          (pos2, errors1) =
            (if char_at src pos1 = Some CHR ''='' then (pos1 + 1, errors)
             else (pos1, errors @ [MissingChar CHR ''='' pos1]));
          pos3 = pos2 + whitespaces L src pos2;
          (value, pushed) =
            (if char_at src pos3 = Some CHR ''('' then parseLiteral L src pos3
             else if char_at src pos3 = Some CHR ''$'' then parseVariable L src pos3
             else parseNmtoken L src pos3)
      in (OptionParsed start (value_end value) nm value, errors1 @ pushed))"

text \<open>
  The \<open>while\<close> loop of \<open>parseExpressionOrMarkup\<close>, from the state \<open>pos\<close>, \<open>options\<close>,
  \<open>errors\<close> to the state in which it ends. It is left by the end of the input, by a
  closing brace after the whitespace, or by an option that does not advance; nothing
  else in the code bounds it, so it is a partial function.
\<close>

partial_function (option) parseOptions ::
  "lexer \<Rightarrow> string \<Rightarrow> nat \<Rightarrow> OptionParsed list \<Rightarrow> ParseError list
     \<Rightarrow> (nat \<times> OptionParsed list \<times> ParseError list) option" where
  "parseOptions L src pos opts errors =
     (if pos < length src then
        (let ws = whitespaces L src pos in
         if char_at src (pos + ws) = Some CHR ''}'' then Some (pos, opts, errors)
         else
           (let errors1 = (if ws = 0 then errors @ [MissingChar CHR '' '' pos] else errors);
                pos1 = pos + ws;
                (opt, errors2) = parseOption L src pos1 errors1
            in if option_end opt = pos1 then Some (pos1, opts, errors2)
               else parseOptions L src (option_end opt) (opts @ [opt]) errors2))
      else Some (pos, opts, errors))"

declare parseOptions.simps [code]

text \<open>\<open>parseExpressionOrMarkup\<close>: the body and the error list after it.\<close>

definition parseExpressionOrMarkup ::
  "lexer \<Rightarrow> string \<Rightarrow> nat \<Rightarrow> ValueParsed option \<Rightarrow> ParseError list
     \<Rightarrow> (BodyParsed \<times> ParseError list) option" where
  "parseExpressionOrMarkup L src start operand errors =
     (let sigil = char_at src start;
          pos0 = start + 1;
          nm = parseNameValue L src pos0;
          errors0 = (if nm = [] then errors @ [EmptyToken pos0 None] else errors)
      in case parseOptions L src (pos0 + length nm) [] errors0 of
           None \<Rightarrow> None
         | Some (end, opts, errors1) \<Rightarrow>
             if sigil = Some CHR '':'' then
               Some (ExpressionParsed operand start end nm opts, errors1)
             else
               (let errors2 =
                      (case operand of
                         None \<Rightarrow> errors1
                       | Some v \<Rightarrow> ExtraContent (value_start v) (value_end v) # errors1)
                in if sigil = Some CHR ''+'' then
                     Some (MarkupStartParsed start end nm opts, errors2)
                   else
                     Some (MarkupEndParsed start end nm,
                           if length opts > 0
                           then errors2 @ [ExtraContent (option_start (opts ! 0))
                                             (option_end (opts ! (length opts - 1)))]
                           else errors2)))"

text \<open>\<open>while (pos < src.length && src[pos] !== '}') pos += 1\<close>.\<close>

function skip_to_close :: "string \<Rightarrow> nat \<Rightarrow> nat" where
  "skip_to_close src pos =
     (if pos < length src \<and> src ! pos \<noteq> CHR ''}'' then skip_to_close src (pos + 1) else pos)"
  by pat_completeness auto
termination
  by (relation "measure (\<lambda>(src, pos). length src - pos)") auto

declare skip_to_close.simps [simp del]

text \<open>
  \<open>parsePlaceholder\<close> in its three steps. First the \<open>switch\<close> that parses an operand
  when the character at \<open>pos\<close> opens a literal or a variable: the operand, the position
  after it and the error list.
\<close>

definition parseArg ::
  "lexer \<Rightarrow> string \<Rightarrow> nat \<Rightarrow> ParseError list \<Rightarrow> ValueParsed option \<times> nat \<times> ParseError list" where
  "parseArg L src pos errors =
     (if char_at src pos = Some CHR ''('' then
        (let (v, pushed) = parseLiteral L src pos in (Some v, value_end v, errors @ pushed))
      else if char_at src pos = Some CHR ''$'' then
        (let (v, pushed) = parseVariable L src pos in (Some v, value_end v, errors @ pushed))
      else (None, pos, errors))"

text \<open>
  Then the \<open>switch\<close> that sets \<open>body\<close>: the body, the position after it, the error
  list, and \<open>junkError\<close> as the index at which that error object was pushed.
\<close>

definition parseBody ::
  "lexer \<Rightarrow> string \<Rightarrow> nat \<Rightarrow> ValueParsed option \<Rightarrow> ParseError list
     \<Rightarrow> (BodyParsed \<times> nat \<times> ParseError list \<times> nat option) option" where
  "parseBody L src pos arg errors =
     (if char_at src pos \<in> {Some CHR '':'', Some CHR ''+'', Some CHR ''-''} then
        (case parseExpressionOrMarkup L src pos arg errors of
           None \<Rightarrow> None
         | Some (body, errors') \<Rightarrow> Some (body, body_end body, errors', None))
      else
        (case arg of
           Some v \<Rightarrow> Some (OperandBody v, pos, errors, None)
         | None \<Rightarrow>
             Some (JunkParsed pos pos (substring src pos (pos + 1)), pos,
                   errors @ [ParseErr pos pos], Some (length errors))))"

text \<open>
  Last the whitespace after the body and the check for the closing brace, which gives the
  placeholder and the final error list. Widening \<open>junkError\<close> changes the entry of the
  error list at its index.
\<close>

definition closePlaceholder ::
  "lexer \<Rightarrow> string \<Rightarrow> nat \<Rightarrow> BodyParsed \<Rightarrow> nat \<Rightarrow> ParseError list \<Rightarrow> nat option
     \<Rightarrow> PlaceholderParsed \<times> ParseError list" where
  "closePlaceholder L src start body pos0 errors junkError =
     (let pos = pos0 + whitespaces L src pos0 in
      if pos \<ge> length src then
        (PlaceholderParsed start pos body, errors @ [MissingChar CHR ''}'' pos])
      else if src ! pos \<noteq> CHR ''}'' then
        (let pos' = skip_to_close src pos in
         case body of
           JunkParsed s e source \<Rightarrow>
             (PlaceholderParsed start pos' (JunkParsed s pos' (substring src s pos')),
              (case junkError of
                 None \<Rightarrow> errors
               | Some j \<Rightarrow> errors[j := ParseErr (error_start (errors ! j)) pos']))
         | _ \<Rightarrow> (PlaceholderParsed start pos' body, errors @ [ExtraContent pos pos']))
      else (PlaceholderParsed start (pos + 1) body, errors))"

definition parsePlaceholder ::
  "lexer \<Rightarrow> string \<Rightarrow> nat \<Rightarrow> ParseError list \<Rightarrow> (PlaceholderParsed \<times> ParseError list) option" where
  "parsePlaceholder L src start errors =
     (let pos0 = start + 1 + whitespaces L src (start + 1);
          (arg, pos1, errors1) = parseArg L src pos0 errors;
          pos2 = pos1 + whitespaces L src pos1
      in case parseBody L src pos2 arg errors1 of
           None \<Rightarrow> None
         | Some (body, pos3, errors3, junkError) \<Rightarrow>
             Some (closePlaceholder L src start body pos3 errors3 junkError))"

text \<open>
  The parser at the point where it looks for the closing brace: the body, the position
  after the body and the whitespace that follows it, and the errors recorded so far.
\<close>

definition before_close ::
  "lexer \<Rightarrow> string \<Rightarrow> nat \<Rightarrow> ParseError list \<Rightarrow> (BodyParsed \<times> nat \<times> ParseError list) option" where
  "before_close L src start errors =
     (let pos0 = start + 1 + whitespaces L src (start + 1);
          (arg, pos1, errors1) = parseArg L src pos0 errors;
          pos2 = pos1 + whitespaces L src pos1
      in case parseBody L src pos2 arg errors1 of
           None \<Rightarrow> None
         | Some (body, pos3, errors3, junkError) \<Rightarrow>
             Some (body, pos3 + whitespaces L src pos3, errors3))"

fun is_junk :: "BodyParsed \<Rightarrow> bool" where
  "is_junk (JunkParsed s e source) = True"
| "is_junk _ = False"

section \<open>What the parser needs of the lexical helpers\<close>

text \<open>
  The helpers stay inside the source and move forward: skipping whitespace and reading a
  name from a position inside the source end inside it, and a value parsed from a
  position ends at or after that position and inside the source (a literal and a variable
  are only ever parsed where their sigil stands). The node of a value starts where it was
  parsed, the errors a helper pushes start at or after that position, and no helper
  reports the closing brace of the placeholder as missing.
\<close>

definition helper_ok :: "string \<Rightarrow> nat \<Rightarrow> ValueParsed \<times> ParseError list \<Rightarrow> bool" where
  "helper_ok src pos r \<longleftrightarrow>
     value_start (fst r) = pos \<and> pos \<le> value_end (fst r) \<and> value_end (fst r) \<le> length src \<and>
     (\<forall>e \<in> set (snd r). pos \<le> error_start e \<and> (\<forall>p. e \<noteq> MissingChar CHR ''}'' p))"

definition lexer_ok :: "lexer \<Rightarrow> bool" where
  "lexer_ok L \<longleftrightarrow>
     (\<forall>src pos. pos \<le> length src \<longrightarrow> pos + whitespaces L src pos \<le> length src) \<and>
     (\<forall>src pos. pos \<le> length src \<longrightarrow> pos + length (parseNameValue L src pos) \<le> length src) \<and>
     (\<forall>src pos. pos \<le> length src \<longrightarrow> helper_ok src pos (parseNmtoken L src pos)) \<and>
     (\<forall>src pos. char_at src pos = Some CHR ''('' \<longrightarrow> helper_ok src pos (parseLiteral L src pos)) \<and>
     (\<forall>src pos. char_at src pos = Some CHR ''$'' \<longrightarrow> helper_ok src pos (parseVariable L src pos))"

text \<open>The number of \<open>missing-char\<close> errors for the closing brace in a list.\<close>

definition missing_braces :: "ParseError list \<Rightarrow> nat" where
  "missing_braces errors = length (filter (\<lambda>e. \<exists>p. e = MissingChar CHR ''}'' p) errors)"

text \<open>Errors that start at or after a position and do not report a missing closing brace.\<close>

definition pushed_ok :: "nat \<Rightarrow> ParseError list \<Rightarrow> bool" where
  "pushed_ok pos new \<longleftrightarrow> (\<forall>e \<in> set new. pos \<le> error_start e) \<and> missing_braces new = 0"

text \<open>The error that \<open>parseExpressionOrMarkup\<close> puts in front of the list.\<close>

definition unshifted :: "char option \<Rightarrow> ValueParsed option \<Rightarrow> ParseError list" where
  "unshifted sigil operand =
     (case operand of
        None \<Rightarrow> []
      | Some v \<Rightarrow> if sigil = Some CHR '':'' then [] else [ExtraContent (value_start v) (value_end v)])"

section \<open>Well-formed placeholders\<close>

text \<open>
  The grammar in the comments of \<open>placeholder.ts\<close>, over the tokens that the helpers
  accept without an error. Whitespace may stand between tokens, except inside a function
  or markup name with its sigil; options are separated from what precedes them by
  whitespace. \<open>skip_ws\<close> is the position after optional whitespace.
\<close>

definition skip_ws :: "lexer \<Rightarrow> string \<Rightarrow> nat \<Rightarrow> nat" where
  "skip_ws L src p = p + whitespaces L src p"

text \<open>A name from \<open>p\<close> to \<open>q\<close>.\<close>

definition name_at :: "lexer \<Rightarrow> string \<Rightarrow> nat \<Rightarrow> nat \<Rightarrow> bool" where
  "name_at L src p q \<longleftrightarrow>
     parseNameValue L src p \<noteq> [] \<and> q = p + length (parseNameValue L src p)"

text \<open>\<open>Operand ::= Literal | Variable\<close>, from \<open>p\<close> to \<open>q\<close>.\<close>

definition operand_at :: "lexer \<Rightarrow> string \<Rightarrow> nat \<Rightarrow> nat \<Rightarrow> bool" where
  "operand_at L src p q \<longleftrightarrow>
     char_at src p = Some CHR ''('' \<and> snd (parseLiteral L src p) = []
       \<and> value_end (fst (parseLiteral L src p)) = q
     \<or> char_at src p = Some CHR ''$'' \<and> snd (parseVariable L src p) = []
       \<and> value_end (fst (parseVariable L src p)) = q"

text \<open>\<open>Literal | Nmtoken | Variable\<close>, the value of an option.\<close>

definition value_at :: "lexer \<Rightarrow> string \<Rightarrow> nat \<Rightarrow> nat \<Rightarrow> bool" where
  "value_at L src p q \<longleftrightarrow>
     operand_at L src p q
     \<or> char_at src p \<noteq> Some CHR ''('' \<and> char_at src p \<noteq> Some CHR ''$''
       \<and> snd (parseNmtoken L src p) = [] \<and> value_end (fst (parseNmtoken L src p)) = q"

text \<open>\<open>Option ::= Name '=' (Literal | Nmtoken | Variable)\<close>.\<close>

definition option_at :: "lexer \<Rightarrow> string \<Rightarrow> nat \<Rightarrow> nat \<Rightarrow> bool" where
  "option_at L src p q \<longleftrightarrow>
     (\<exists>n. name_at L src p n \<and> char_at src (skip_ws L src n) = Some CHR ''=''
          \<and> value_at L src (skip_ws L src (skip_ws L src n + 1)) q)"

text \<open>\<open>Option*\<close>, each option after whitespace.\<close>

inductive options_at :: "lexer \<Rightarrow> string \<Rightarrow> nat \<Rightarrow> nat \<Rightarrow> bool" for L src where
  no_option: "options_at L src p p"
| one_more: "0 < whitespaces L src p \<Longrightarrow> option_at L src (skip_ws L src p) q \<Longrightarrow>
             options_at L src q r \<Longrightarrow> options_at L src p r"

text \<open>\<open>Annotation ::= Function Option*\<close> with \<open>Function ::= ':' Name\<close>.\<close>

definition annotation_at :: "lexer \<Rightarrow> string \<Rightarrow> nat \<Rightarrow> nat \<Rightarrow> bool" where
  "annotation_at L src p q \<longleftrightarrow>
     char_at src p = Some CHR '':'' \<and> (\<exists>n. name_at L src (p + 1) n \<and> options_at L src n q)"

text \<open>\<open>Markup ::= MarkupStart Option*\<close> with \<open>MarkupStart ::= '+' Name\<close>.\<close>

definition markup_start_at :: "lexer \<Rightarrow> string \<Rightarrow> nat \<Rightarrow> nat \<Rightarrow> bool" where
  "markup_start_at L src p q \<longleftrightarrow>
     char_at src p = Some CHR ''+'' \<and> (\<exists>n. name_at L src (p + 1) n \<and> options_at L src n q)"

text \<open>\<open>MarkupEnd ::= '-' Name\<close>.\<close>

definition markup_end_at :: "lexer \<Rightarrow> string \<Rightarrow> nat \<Rightarrow> nat \<Rightarrow> bool" where
  "markup_end_at L src p q \<longleftrightarrow> char_at src p = Some CHR ''-'' \<and> name_at L src (p + 1) q"

text \<open>
  \<open>Expression | Markup | MarkupEnd\<close> with \<open>Expression ::= Operand Annotation? | Annotation\<close>.
\<close>

definition body_at :: "lexer \<Rightarrow> string \<Rightarrow> nat \<Rightarrow> nat \<Rightarrow> bool" where
  "body_at L src p q \<longleftrightarrow>
     operand_at L src p q
     \<or> (\<exists>r. operand_at L src p r \<and> annotation_at L src (skip_ws L src r) q)
     \<or> annotation_at L src p q
     \<or> markup_start_at L src p q
     \<or> markup_end_at L src p q"

text \<open>
  A well-formed placeholder from \<open>start\<close> to \<open>stop\<close>: the opening brace, a body, the
  closing brace, with \<open>stop\<close> the position after the closing brace.
\<close>

definition well_formed :: "lexer \<Rightarrow> string \<Rightarrow> nat \<Rightarrow> nat \<Rightarrow> bool" where
  "well_formed L src start stop \<longleftrightarrow>
     char_at src start = Some CHR ''{''
     \<and> (\<exists>q. body_at L src (skip_ws L src (start + 1)) q
            \<and> char_at src (skip_ws L src q) = Some CHR ''}''
            \<and> stop = skip_ws L src q + 1)"

text \<open>
  What the grammar needs of the helpers besides: after skipped whitespace there is no
  whitespace, and a name does not start with the closing brace.
\<close>

definition lexer_tokens :: "lexer \<Rightarrow> bool" where
  "lexer_tokens L \<longleftrightarrow>
     (\<forall>src p. whitespaces L src (p + whitespaces L src p) = 0) \<and>
     (\<forall>src p. parseNameValue L src p \<noteq> [] \<longrightarrow> char_at src p \<noteq> Some CHR ''}'')"

text \<open>
  The grammar as the specification writes it:
  \<open>Placeholder ::= '{' Operand? (Annotation | MarkupTail)? '}'\<close> with
  \<open>MarkupTail ::= ('+' | '-') Name Option*\<close>. Beside the well-formed placeholders it
  has the empty placeholder, an operand before a markup tail, and options after a
  \<open>-\<close> tail.
\<close>

definition spec_markup_tail_at :: "lexer \<Rightarrow> string \<Rightarrow> nat \<Rightarrow> nat \<Rightarrow> bool" where
  "spec_markup_tail_at L src p q \<longleftrightarrow>
     (char_at src p = Some CHR ''+'' \<or> char_at src p = Some CHR ''-'')
     \<and> (\<exists>n. name_at L src (p + 1) n \<and> options_at L src n q)"

definition spec_body_at :: "lexer \<Rightarrow> string \<Rightarrow> nat \<Rightarrow> nat \<Rightarrow> bool" where
  "spec_body_at L src p q \<longleftrightarrow>
     (\<exists>r. (r = p \<or> operand_at L src p r)
          \<and> (q = r \<or> annotation_at L src (skip_ws L src r) q
               \<or> spec_markup_tail_at L src (skip_ws L src r) q))"

definition spec_well_formed :: "lexer \<Rightarrow> string \<Rightarrow> nat \<Rightarrow> nat \<Rightarrow> bool" where
  "spec_well_formed L src start stop \<longleftrightarrow>
     char_at src start = Some CHR ''{''
     \<and> (\<exists>q. spec_body_at L src (skip_ws L src (start + 1)) q
            \<and> char_at src (skip_ws L src q) = Some CHR ''}''
            \<and> stop = skip_ws L src q + 1)"

section \<open>A sample of the lexical helpers\<close>

text \<open>
  Concrete helpers on which the theorems about the parser are tried out, after the
  grammar in the comments of \<open>placeholder.ts\<close>: whitespace is tab, line feed, carriage
  return and space; a name starts with a letter or an underscore and goes on with
  letters, underscores, digits, hyphens and full stops; an nmtoken is a run of such
  characters; a variable is \<open>$\<close> and a name; a literal runs from \<open>(\<close> to the next
  \<open>)\<close> that no backslash precedes.
\<close>

definition is_whitespace :: "char \<Rightarrow> bool" where
  "is_whitespace c \<longleftrightarrow> c \<in> {CHR 0x09, CHR 0x0A, CHR 0x0D, CHR '' ''}"

definition is_name_start :: "char \<Rightarrow> bool" where
  "is_name_start c \<longleftrightarrow>
     (let n = (of_char c :: nat) in (65 \<le> n \<and> n \<le> 90) \<or> (97 \<le> n \<and> n \<le> 122) \<or> n = 95)"

definition is_name_char :: "char \<Rightarrow> bool" where
  "is_name_char c \<longleftrightarrow>
     is_name_start c \<or> (let n = (of_char c :: nat) in 48 \<le> n \<and> n \<le> 57)
     \<or> c = CHR ''-'' \<or> c = CHR ''.''"

definition sample_whitespaces :: "string \<Rightarrow> nat \<Rightarrow> nat" where
  "sample_whitespaces src pos = length (takeWhile is_whitespace (drop pos src))"

definition sample_parseNameValue :: "string \<Rightarrow> nat \<Rightarrow> string" where
  "sample_parseNameValue src pos =
     (case drop pos src of
        [] \<Rightarrow> []
      | c # cs \<Rightarrow> if is_name_start c then c # takeWhile is_name_char cs else [])"

definition sample_parseNmtoken :: "string \<Rightarrow> nat \<Rightarrow> ValueParsed \<times> ParseError list" where
  "sample_parseNmtoken src pos =
     (let value = takeWhile is_name_char (drop pos src)
      in (NmtokenParsed pos (pos + length value) value,
          if value = [] then [EmptyToken pos None] else []))"

definition sample_parseVariable :: "string \<Rightarrow> nat \<Rightarrow> ValueParsed \<times> ParseError list" where
  "sample_parseVariable src pos =
     (let nm = sample_parseNameValue src (pos + 1)
      in (VariableRefParsed pos (pos + 1 + length nm) nm,
          if nm = [] then [EmptyToken (pos + 1) (Some (pos + 2))] else []))"

text \<open>
  The characters of a literal after its opening parenthesis: how many are read (the
  closing parenthesis included), the value, and whether the literal is closed.
\<close>

fun literal_body :: "string \<Rightarrow> nat \<times> string \<times> bool" where
  "literal_body [] = (0, [], False)"
| "literal_body (c # cs) =
     (if c = CHR '')'' then (1, [], True)
      else if c = CHR 0x5C \<and> cs \<noteq> [] then
        (case literal_body (tl cs) of (n, v, ok) \<Rightarrow> (n + 2, hd cs # v, ok))
      else (case literal_body cs of (n, v, ok) \<Rightarrow> (n + 1, c # v, ok)))"

definition sample_parseLiteral :: "string \<Rightarrow> nat \<Rightarrow> ValueParsed \<times> ParseError list" where
  "sample_parseLiteral src pos =
     (case literal_body (drop (pos + 1) src) of
        (n, v, ok) \<Rightarrow>
          if ok then (LiteralParsed pos (pos + 1 + n) v, [])
          else (LiteralParsed pos (length src) v, [MissingChar CHR '')'' (length src)]))"

definition sample_lexer :: lexer where
  "sample_lexer =
     \<lparr>whitespaces = sample_whitespaces, parseNameValue = sample_parseNameValue,
      parseNmtoken = sample_parseNmtoken, parseLiteral = sample_parseLiteral,
      parseVariable = sample_parseVariable\<rparr>"

section \<open>Properties of \<open>addMeta\<close>\<close>

lemma is_scalar_typeof:
  "is_scalar v \<longleftrightarrow> typeof_meta v \<in> {''boolean'', ''number'', ''string''}"
  by (cases v) auto

lemma addMeta_entry_projection:
  "addMeta_entry h fm (k, v) =
     (if k \<in> fst ` set fm \<or> inherits h k then fm
      else case projection v of None \<Rightarrow> fm | Some w \<Rightarrow> fm @ [(k, w)])"
proof (cases v)
  case (MObject vo)
  then show ?thesis
    by (cases vo) (auto simp: is_scalar_typeof)
qed (auto simp: is_scalar_typeof)

lemma projected_Nil: "projected h [] = []"
  by (simp add: projected_def)

lemma projected_Cons:
  "projected h ((k, v) # meta) =
     (if inherits h k then projected h meta
      else case projection v of None \<Rightarrow> projected h meta | Some w \<Rightarrow> (k, w) # projected h meta)"
  by (simp add: projected_def List.map_filter_simps split: option.splits)

lemma map_of_append_shadowed:
  "k \<in> fst ` set fm \<Longrightarrow> map_of (fm @ (k, w) # rest) = map_of (fm @ rest)"
proof (rule ext)
  fix x
  assume k: "k \<in> fst ` set fm"
  then obtain u where "map_of fm k = Some u"
    by (metis domD dom_map_of_conv_image_fst)
  then show "map_of (fm @ (k, w) # rest) x = map_of (fm @ rest) x"
    by (cases "x = k") (simp_all add: map_add_def split: option.splits)
qed

lemma foldl_addMeta_entry_map_of:
  "map_of (foldl (addMeta_entry h) fm meta) = map_of (fm @ projected h meta)"
proof (induction meta arbitrary: fm)
  case Nil
  show ?case by (simp add: projected_Nil)
next
  case (Cons e meta)
  obtain k v where e: "e = (k, v)" by (cases e)
  have "map_of (addMeta_entry h fm (k, v) @ projected h meta)
          = map_of (fm @ projected h ((k, v) # meta))"
  proof (cases "inherits h k")
    case True
    then show ?thesis
      by (simp add: addMeta_entry_projection projected_Cons del: addMeta_entry.simps)
  next
    case new: False
    show ?thesis
    proof (cases "k \<in> fst ` set fm")
      case True
      then have "addMeta_entry h fm (k, v) = fm"
        by (simp add: addMeta_entry_projection del: addMeta_entry.simps)
      with map_of_append_shadowed [OF True] new show ?thesis
        by (cases "projection v") (simp_all only: projected_Cons option.case if_False)
    next
      case False
      with new show ?thesis
        by (cases "projection v")
           (simp_all add: addMeta_entry_projection projected_Cons del: addMeta_entry.simps)
    qed
  qed
  with Cons.IH [of "addMeta_entry h fm e"] e show ?case
    by (simp del: addMeta_entry.simps)
qed

lemma foldl_addMeta_entry_set:
  "set (foldl (addMeta_entry h) fm meta) \<subseteq> set fm \<union> set (projected h meta)"
proof (induction meta arbitrary: fm)
  case Nil
  show ?case by simp
next
  case (Cons e meta)
  obtain k v where e: "e = (k, v)" by (cases e)
  have "set (addMeta_entry h fm (k, v)) \<union> set (projected h meta)
          \<subseteq> set fm \<union> set (projected h ((k, v) # meta))"
    by (cases "projection v")
       (auto simp: addMeta_entry_projection projected_Cons simp del: addMeta_entry.simps)
  with Cons.IH [of "addMeta_entry h fm e"] e show ?case
    by (auto simp del: addMeta_entry.simps)
qed

lemma projected_values:
  "(k, w) \<in> set (projected h meta) \<Longrightarrow> (w = MNull \<or> is_scalar w) \<and> \<not> inherits h k"
proof (induction meta)
  case Nil
  then show ?case by (simp add: projected_Nil)
next
  case (Cons e meta)
  obtain k' v where e: "e = (k', v)" by (cases e)
  have "projection v = Some w \<Longrightarrow> w = MNull \<or> is_scalar w"
    by (cases v rule: projection.cases) (auto split: if_splits)
  with Cons e show ?case
    by (auto simp: projected_Cons split: option.splits if_splits)
qed

lemma map_of_projected:
  "distinct (map fst meta) \<Longrightarrow>
     map_of (projected h meta) k =
       (if inherits h k then None
        else case map_of meta k of None \<Rightarrow> None | Some v \<Rightarrow> projection v)"
proof (induction meta)
  case Nil
  show ?case by (simp add: projected_Nil)
next
  case (Cons e meta)
  obtain k' v where e: "e = (k', v)" by (cases e)
  from Cons.prems e have fresh: "map_of meta k' = None"
    by (simp add: map_of_eq_None_iff)
  from Cons e fresh show ?case
    by (cases "projection v") (auto simp: projected_Cons)
qed

lemma addMeta_map_of:
  "addMeta h fm meta = Some bag \<Longrightarrow> map_of bag = map_of (bag_of fm @ projected h meta)"
  by (auto simp: addMeta_def bag_of_def foldl_addMeta_entry_map_of)

lemma addMeta_set:
  "addMeta h fm meta = Some bag \<Longrightarrow> set bag \<subseteq> set (bag_of fm) \<union> set (projected h meta)"
  using foldl_addMeta_entry_set [of h "bag_of fm" meta]
  by (auto simp: addMeta_def bag_of_def)

lemma inherits_sample:
  "inherits sample_host key \<longleftrightarrow>
     key \<in> {''constructor'', ''__defineGetter__'', ''__defineSetter__'', ''hasOwnProperty'',
            ''__lookupGetter__'', ''__lookupSetter__'', ''isPrototypeOf'',
            ''propertyIsEnumerable'', ''toString'', ''valueOf'', ''toLocaleString'', ''__proto__''}"
  by (auto simp: inherits_def sample_host_def sample_object_prototype_def
        sample_object_methods_def)

text \<open>
  Claim C6, as the code has it. Merging \<open>meta\<close> (the distinct-keyed entries that
  \<open>Object.entries\<close> yields) into the bag of a formatted part:
  a key already in the bag keeps its value (first write wins);
  a key that is new and that the bag does not inherit gets the projection of its entry:
  \<open>null\<close> is stored as \<open>null\<close>, a boolean, number or string is stored as it is, an
  object is replaced by what its \<open>valueOf\<close> returns and stored when that is a boolean,
  number or string, and everything else is dropped;
  a key that the bag inherits, or that has no entry, stays out of the bag;
  so every value a merge adds is \<open>null\<close> or a boolean, number or string, under a key
  that is not inherited.
\<close>

theorem addMeta_first_write_wins:
  assumes "distinct (map fst meta)" and "addMeta h fm meta = Some bag"
  shows "(\<forall>k v. map_of (bag_of fm) k = Some v \<longrightarrow> map_of bag k = Some v)
       \<and> (\<forall>k v. k \<notin> fst ` set (bag_of fm) \<and> \<not> inherits h k \<and> map_of meta k = Some v
              \<longrightarrow> map_of bag k = projection v)
       \<and> (\<forall>k. k \<notin> fst ` set (bag_of fm) \<and> (inherits h k \<or> map_of meta k = None)
              \<longrightarrow> map_of bag k = None)
       \<and> (\<forall>k v. (k, v) \<in> set bag \<and> (k, v) \<notin> set (bag_of fm)
              \<longrightarrow> (v = MNull \<or> is_scalar v) \<and> \<not> inherits h k)"
proof -
  have m: "map_of bag = map_of (bag_of fm @ projected h meta)"
    using assms(2) by (rule addMeta_map_of)
  have fresh: "map_of (bag_of fm) k = None" if "k \<notin> fst ` set (bag_of fm)" for k
    using that by (simp add: map_of_eq_None_iff)
  have a: "\<forall>k v. map_of (bag_of fm) k = Some v \<longrightarrow> map_of bag k = Some v"
    by (simp add: m map_add_def)
  have b: "\<forall>k v. k \<notin> fst ` set (bag_of fm) \<and> \<not> inherits h k \<and> map_of meta k = Some v
              \<longrightarrow> map_of bag k = projection v"
    using fresh by (simp add: m map_add_def map_of_projected [OF assms(1)] split: option.splits)
  have c: "\<forall>k. k \<notin> fst ` set (bag_of fm) \<and> (inherits h k \<or> map_of meta k = None)
              \<longrightarrow> map_of bag k = None"
    using fresh by (auto simp: m map_add_def map_of_projected [OF assms(1)] split: option.splits)
  have d: "\<forall>k v. (k, v) \<in> set bag \<and> (k, v) \<notin> set (bag_of fm)
              \<longrightarrow> (v = MNull \<or> is_scalar v) \<and> \<not> inherits h k"
    using addMeta_set [OF assms(2)] projected_values [of _ _ h meta] by blast
  from a b c d show ?thesis by blast
qed

text \<open>
  A merge into the bag \<open>{a: "x"}\<close>, with the sample host: \<open>a\<close> keeps its value, the
  \<open>Boolean\<close> object under \<open>b\<close> is stored as \<open>true\<close>, the plain object under \<open>c\<close> is
  dropped, \<open>null\<close> under \<open>d\<close> is stored, and the string under \<open>constructor\<close>, a key
  that the bag inherits, is not.
\<close>

theorem addMeta_first_write_wins_witness:
  "distinct (map fst [(''a'', MNumber (Fin 1)), (''b'', MObject (Some (MBoolean True))),
                      (''c'', MObject None), (''d'', MNull), (''constructor'', MString ''k'')])
   \<and> addMeta sample_host (Some [(''a'', MString ''x'')])
        [(''a'', MNumber (Fin 1)), (''b'', MObject (Some (MBoolean True))),
         (''c'', MObject None), (''d'', MNull), (''constructor'', MString ''k'')]
      = Some [(''a'', MString ''x''), (''b'', MBoolean True), (''d'', MNull)]
   \<and> inherits sample_host ''constructor''
   \<and> map_of [(''a'', MString ''x''), (''b'', MBoolean True), (''d'', MNull)] ''a''
      = Some (MString ''x'')
   \<and> map_of [(''a'', MString ''x''), (''b'', MBoolean True), (''d'', MNull)] ''b''
      = projection (MObject (Some (MBoolean True)))
   \<and> map_of [(''a'', MString ''x''), (''b'', MBoolean True), (''d'', MNull)] ''c''
      = projection (MObject None)
   \<and> map_of [(''a'', MString ''x''), (''b'', MBoolean True), (''d'', MNull)] ''constructor''
      = None"
proof -
  let ?meta = "[(''a'', MNumber (Fin 1)), (''b'', MObject (Some (MBoolean True))),
                (''c'', MObject None), (''d'', MNull), (''constructor'', MString ''k'')]"
  let ?bag = "[(''a'', MString ''x''), (''b'', MBoolean True), (''d'', MNull)]"
  have d: "distinct (map fst ?meta)" by simp
  have i: "inherits sample_host ''constructor''" by (simp add: inherits_sample)
  have m: "addMeta sample_host (Some [(''a'', MString ''x'')]) ?meta = Some ?bag"
    by (simp add: addMeta_def inherits_sample)
  from addMeta_first_write_wins [OF d m] d m i show ?thesis
    by (simp add: bag_of_def)
qed

text \<open>
  The claim as written keeps only booleans, numbers and strings and drops every other
  object-valued entry. \<open>null\<close> is an entry whose \<open>typeof\<close> is \<open>object\<close>, it is
  neither a boolean, a number nor a string, and the merge keeps it.
\<close>

theorem addMeta_keeps_null:
  "addMeta sample_host None [(''note'', MNull)] = Some [(''note'', MNull)]
   \<and> typeof_meta MNull = ''object'' \<and> \<not> is_scalar MNull"
  by (simp add: addMeta_def inherits_sample)

section \<open>Properties of \<open>resolveVariable\<close>\<close>








section \<open>Properties of \<open>resolveOptions\<close>\<close>











section \<open>Properties of formatting to a string\<close>

lemma resolveParts_string_literals:
  "resolveParts h ctx (map (\<lambda>(s, m). Operand (Literal (LString s) m)) lits) =
     Inr (map (\<lambda>(s, m). FormattedLiteral (locales ctx) (LString s) (construct_meta h m)) lits)"
  by (induction lits) (auto split: prod.splits)

lemma toString_string_literals:
  "concat (map (toString h \<circ> (\<lambda>(s, m). FormattedLiteral ls (LString s) (construct_meta h m))) lits)
     = concat (map fst lits)"
  by (induction lits) (auto split: prod.splits)

text \<open>
  Claim C8, for the literal parts whose values are strings. A pattern of such parts,
  resolved in any context (in particular with an empty scope) and rendered, gives the
  concatenation of the literal values verbatim, and so the same string for every list of
  locales put into the context.
\<close>

theorem formatToString_string_literals:
  "formatToString h ctx
     (Message meta (PatternValue (map (\<lambda>(s, m). Operand (Literal (LString s) m)) lits)))
     = Inr (concat (map fst lits))
   \<and> formatToString h (ctx\<lparr>locales := ls\<rparr>)
       (Message meta (PatternValue (map (\<lambda>(s, m). Operand (Literal (LString s) m)) lits)))
     = formatToString h ctx
         (Message meta (PatternValue (map (\<lambda>(s, m). Operand (Literal (LString s) m)) lits)))"
proof -
  have "formatToString h c
     (Message meta (PatternValue (map (\<lambda>(s, m). Operand (Literal (LString s) m)) lits)))
     = Inr (concat (map fst lits))" for c
    by (cases meta)
       (simp_all add: formatToString_def formatToParts_def resolveParts_string_literals
          toString_string_literals)
  then show ?thesis by simp
qed

text \<open>
  A literal part may hold a number, and \<open>toString\<close> of a formatted literal hands its
  value to \<open>toLocaleString\<close> with the locales. With an empty scope the pattern of the
  single literal \<open>1234\<close> renders as \<open>1,234\<close> for \<open>en\<close> and as \<open>1.234\<close> for
  \<open>de\<close>: neither is the literal verbatim, and the two differ.
\<close>

theorem formatToString_number_literal:
  "formatToString sample_host sample_context
     (Message None (PatternValue [Operand (Literal (LNumber (Fin 1234)) None)])) = Inr ''1,234''
   \<and> formatToString sample_host (sample_context\<lparr>locales := [''de'']\<rparr>)
     (Message None (PatternValue [Operand (Literal (LNumber (Fin 1234)) None)])) = Inr ''1.234''
   \<and> scope sample_context = VObject []"
  by (simp add: formatToString_def formatToParts_def sample_host_def sample_context_def
        sample_number_toLocaleString_def construct_meta_def)

section \<open>Properties of \<open>resolveFormatFunction\<close>\<close>




















section \<open>Properties of \<open>resolveSelect\<close>\<close>

lemma every_from_matches:
  "i + length ks = length res \<Longrightarrow>
     every_from i ks res = Inr (\<forall>j < length ks. key_matches (ks ! j) (res ! (i + j)))"
proof (induction ks arbitrary: i)
  case Nil
  show ?case by simp
next
  case (Cons k ks)
  from Cons.prems have i: "i < length res" and s: "Suc i + length ks = length res" by simp_all
  have "(\<forall>j < length (k # ks). key_matches ((k # ks) ! j) (res ! (i + j))) \<longleftrightarrow>
          key_matches k (res ! i) \<and> (\<forall>j < length ks. key_matches (ks ! j) (res ! (Suc i + j)))"
    by (auto simp: less_Suc_eq_0_disj)
  with Cons.IH [OF s] i show ?case by simp
qed

lemma every_from_fully_matches:
  "length key = length res \<Longrightarrow> every_from 0 key res = Inr (fully_matches res key)"
  using every_from_matches [of 0 key res]
  by (simp add: fully_matches_def key_matches_def)

lemma scan_cases_find:
  "\<forall>c \<in> set cs. length (case_key c) = length res \<Longrightarrow>
     scan_cases res cs =
       Inr (case find (\<lambda>c. fully_matches res (case_key c)) cs of
              None \<Rightarrow> ([], None)
            | Some c \<Rightarrow> (case_value c, Some (case_key c)))"
  by (induction cs) (simp_all add: every_from_fully_matches)

lemma resolveSelectors_length:
  "resolveSelectors h ctx ss = Inr res \<Longrightarrow> length res = length ss"
  by (induction ss arbitrary: res) (auto split: sum.splits)

lemma find_first:
  "i < length cs \<Longrightarrow> P (cs ! i) \<Longrightarrow> \<forall>j < i. \<not> P (cs ! j) \<Longrightarrow> find P cs = Some (cs ! i)"
proof (induction cs arbitrary: i)
  case Nil
  then show ?case by simp
next
  case (Cons c cs)
  show ?case
  proof (cases i)
    case 0
    with Cons.prems show ?thesis by simp
  next
    case (Suc n)
    with Cons.prems have "\<not> P c" by auto
    moreover from Suc Cons.prems have "find P cs = Some (cs ! n)"
      by (intro Cons.IH) auto
    ultimately show ?thesis using Suc by simp
  qed
qed

text \<open>
  Claim C1. For a select whose selectors resolve to \<open>res\<close> and whose variants each
  have one key per selector (the invariant of the data model): \<open>resolveSelect\<close> returns
  the pattern of the first variant, in declaration order, whose key tuple fully matches
  \<open>res\<close>, and the empty pattern when there is none; so a fully matching variant
  before which no variant fully matches is the one whose pattern is returned.
\<close>

theorem resolveSelect_first_match:
  assumes sels: "resolveSelectors h ctx (select_select sel) = Inr res"
    and inv: "\<forall>c \<in> set (select_cases sel). length (case_key c) = length (select_select sel)"
  shows "\<exists>fsm.
      resolveSelect h ctx sel =
        Inr (case find (\<lambda>c. fully_matches res (case_key c)) (select_cases sel) of
               None \<Rightarrow> []
             | Some c \<Rightarrow> case_value c, fsm)
    \<and> (\<forall>i < length (select_cases sel).
          fully_matches res (case_key (select_cases sel ! i)) \<and>
          (\<forall>j < i. \<not> fully_matches res (case_key (select_cases sel ! j)))
          \<longrightarrow> resolveSelect h ctx sel = Inr (case_value (select_cases sel ! i), fsm))"
proof -
  let ?P = "\<lambda>c. fully_matches res (case_key c)"
  from inv resolveSelectors_length [OF sels]
  have "\<forall>c \<in> set (select_cases sel). length (case_key c) = length res" by simp
  from scan_cases_find [OF this]
  have scan: "scan_cases res (select_cases sel) =
       Inr (case find ?P (select_cases sel) of
              None \<Rightarrow> ([], None)
            | Some c \<Rightarrow> (case_value c, Some (case_key c)))" .
  obtain fsm where r: "resolveSelect h ctx sel =
        Inr (case find ?P (select_cases sel) of None \<Rightarrow> [] | Some c \<Rightarrow> case_value c, fsm)"
    by (cases "find ?P (select_cases sel)") (simp_all add: resolveSelect_def sels scan)
  have "resolveSelect h ctx sel = Inr (case_value (select_cases sel ! i), fsm)"
    if "i < length (select_cases sel)" "?P (select_cases sel ! i)"
       "\<forall>j < i. \<not> ?P (select_cases sel ! j)" for i
    using find_first [of i "select_cases sel" ?P, OF that] r by simp
  with r show ?thesis by blast
qed


theorem resolveSelect_first_match_witness:
  "resolveSelectors sample_host sample_runtime
      [Selector (Operand (Literal (LNumber (Fin 1)) None)) None]
     = Inr [ResolvedSelector (VString ''one'') (LString ''other'')]
   \<and> length [LString ''one''] = length [Selector (Operand (Literal (LNumber (Fin 1)) None)) None]
   \<and> length [LString ''other''] = length [Selector (Operand (Literal (LNumber (Fin 1)) None)) None]
   \<and> fully_matches [ResolvedSelector (VString ''one'') (LString ''other'')] [LString ''one'']
   \<and> fully_matches [ResolvedSelector (VString ''one'') (LString ''other'')] [LString ''other'']
   \<and> resolveSelect sample_host sample_runtime
        (Select [Selector (Operand (Literal (LNumber (Fin 1)) None)) None]
           [SelectCase [LString ''one''] [Operand (Literal (LString ''X'') None)],
            SelectCase [LString ''other''] [Operand (Literal (LString ''Y'') None)]])
       = Inr ([Operand (Literal (LString ''X'') None)], None)
   \<and> resolveSelect sample_host sample_runtime
        (Select [Selector (Operand (Literal (LNumber (Fin 1)) None)) None]
           [SelectCase [LString ''other''] [Operand (Literal (LString ''Y'') None)],
            SelectCase [LString ''one''] [Operand (Literal (LString ''X'') None)]])
       = Inr ([Operand (Literal (LString ''Y'') None)], None)"
proof -
  let ?sels = "[Selector (Operand (Literal (LNumber (Fin 1)) None)) None]"
  let ?X = "SelectCase [LString ''one''] [Operand (Literal (LString ''X'') None)]"
  let ?Y = "SelectCase [LString ''other''] [Operand (Literal (LString ''Y'') None)]"
  have sels: "resolveSelectors sample_host sample_runtime (select_select (Select ?sels [?X, ?Y]))
     = Inr [ResolvedSelector (VString ''one'') (LString ''other'')]"
    by (simp add: resolveSelector_def sample_runtime_def sample_context_def sample_plural_def
          construct_meta_def)
  have inv: "\<forall>c \<in> set (select_cases (Select ?sels [?X, ?Y])).
               length (case_key c) = length (select_select (Select ?sels [?X, ?Y]))"
    by simp
  have sels': "resolveSelectors sample_host sample_runtime (select_select (Select ?sels [?Y, ?X]))
     = Inr [ResolvedSelector (VString ''one'') (LString ''other'')]"
    using sels by simp
  have inv': "\<forall>c \<in> set (select_cases (Select ?sels [?Y, ?X])).
               length (case_key c) = length (select_select (Select ?sels [?Y, ?X]))"
    by simp
  have m: "fully_matches [ResolvedSelector (VString ''one'') (LString ''other'')] [LString ''one'']"
    "fully_matches [ResolvedSelector (VString ''one'') (LString ''other'')] [LString ''other'']"
    by (simp_all add: fully_matches_def)
  have s0: "resolveSelectors sample_host sample_runtime ?sels
     = Inr [ResolvedSelector (VString ''one'') (LString ''other'')]"
    using sels by simp
  have l: "length [LString ''one''] = length ?sels" "length [LString ''other''] = length ?sels"
    by simp_all
  have none: "getFormattedSelectMeta sample_host s r k = None" for s r k
    by (simp add: sample_host_def)
  have r1: "resolveSelect sample_host sample_runtime (Select ?sels [?X, ?Y])
       = Inr ([Operand (Literal (LString ''X'') None)], None)"
    using s0 by (simp add: resolveSelect_def key_matches_def none)
  have r2: "resolveSelect sample_host sample_runtime (Select ?sels [?Y, ?X])
       = Inr ([Operand (Literal (LString ''Y'') None)], None)"
    using s0 by (simp add: resolveSelect_def key_matches_def none)
  from resolveSelect_first_match [OF sels inv] resolveSelect_first_match [OF sels' inv']
    s0 m r1 r2
  show ?thesis by simp
qed

section \<open>Termination and range of the parser\<close>

lemma lexer_ok_ws: "lexer_ok L \<Longrightarrow> pos \<le> length src \<Longrightarrow> pos + whitespaces L src pos \<le> length src"
  by (simp add: lexer_ok_def)

lemma lexer_ok_name:
  "lexer_ok L \<Longrightarrow> pos \<le> length src \<Longrightarrow> pos + length (parseNameValue L src pos) \<le> length src"
  by (simp add: lexer_ok_def)

lemma missing_braces_append [simp]:
  "missing_braces (xs @ ys) = missing_braces xs + missing_braces ys"
  by (simp add: missing_braces_def)

lemma missing_braces_simps [simp]:
  "missing_braces [] = 0"
  "missing_braces (MissingChar c p # es) = (if c = CHR ''}'' then 1 else 0) + missing_braces es"
  "missing_braces (ExtraContent s e # es) = missing_braces es"
  "missing_braces (EmptyToken s eo # es) = missing_braces es"
  "missing_braces (ParseErr s e # es) = missing_braces es"
  by (auto simp: missing_braces_def)

lemma pushed_ok_simps [simp]:
  "pushed_ok pos []"
  "pushed_ok pos (xs @ ys) \<longleftrightarrow> pushed_ok pos xs \<and> pushed_ok pos ys"
  "pushed_ok pos (ExtraContent s e # es) \<longleftrightarrow> pos \<le> s \<and> pushed_ok pos es"
  "pushed_ok pos (EmptyToken s eo # es) \<longleftrightarrow> pos \<le> s \<and> pushed_ok pos es"
  "pushed_ok pos (ParseErr s e # es) \<longleftrightarrow> pos \<le> s \<and> pushed_ok pos es"
  "pushed_ok pos (MissingChar c s # es) \<longleftrightarrow> pos \<le> s \<and> c \<noteq> CHR ''}'' \<and> pushed_ok pos es"
  by (auto simp: pushed_ok_def)

lemma pushed_ok_mono: "pushed_ok q new \<Longrightarrow> p \<le> q \<Longrightarrow> pushed_ok p new"
  by (auto simp: pushed_ok_def)

lemma helper_ok_split:
  "helper_ok src pos r \<Longrightarrow> r = (v, pushed) \<Longrightarrow>
     value_start v = pos \<and> pos \<le> value_end v \<and> value_end v \<le> length src \<and> pushed_ok pos pushed"
  unfolding helper_ok_def pushed_ok_def missing_braces_def
  by (auto simp: filter_empty_conv)

lemma lexer_ok_nmtoken:
  "lexer_ok L \<Longrightarrow> pos \<le> length src \<Longrightarrow> parseNmtoken L src pos = (v, pushed) \<Longrightarrow>
     value_start v = pos \<and> pos \<le> value_end v \<and> value_end v \<le> length src \<and> pushed_ok pos pushed"
proof -
  assume a: "lexer_ok L" "pos \<le> length src" "parseNmtoken L src pos = (v, pushed)"
  from a(1,2) have "helper_ok src pos (parseNmtoken L src pos)" by (simp add: lexer_ok_def)
  from helper_ok_split [OF this a(3)] show ?thesis .
qed

lemma lexer_ok_literal:
  "lexer_ok L \<Longrightarrow> char_at src pos = Some CHR ''('' \<Longrightarrow> parseLiteral L src pos = (v, pushed) \<Longrightarrow>
     value_start v = pos \<and> pos \<le> value_end v \<and> value_end v \<le> length src \<and> pushed_ok pos pushed"
proof -
  assume a: "lexer_ok L" "char_at src pos = Some CHR ''(''" "parseLiteral L src pos = (v, pushed)"
  from a(1,2) have "helper_ok src pos (parseLiteral L src pos)" by (simp add: lexer_ok_def)
  from helper_ok_split [OF this a(3)] show ?thesis .
qed

lemma lexer_ok_variable:
  "lexer_ok L \<Longrightarrow> char_at src pos = Some CHR ''$'' \<Longrightarrow> parseVariable L src pos = (v, pushed) \<Longrightarrow>
     value_start v = pos \<and> pos \<le> value_end v \<and> value_end v \<le> length src \<and> pushed_ok pos pushed"
proof -
  assume a: "lexer_ok L" "char_at src pos = Some CHR ''$''" "parseVariable L src pos = (v, pushed)"
  from a(1,2) have "helper_ok src pos (parseVariable L src pos)" by (simp add: lexer_ok_def)
  from helper_ok_split [OF this a(3)] show ?thesis .
qed

lemma char_at_Some: "char_at src pos = Some c \<Longrightarrow> pos < length src \<and> src ! pos = c"
  by (auto simp: char_at_def split: if_splits)

lemma parseOption_range:
  assumes "lexer_ok L" "start \<le> length src" "parseOption L src start errors = (opt, errors')"
  shows "option_start opt = start \<and> start \<le> option_end opt \<and> option_end opt \<le> length src
       \<and> (\<exists>new. errors' = errors @ new \<and> pushed_ok start new)"
proof -
  define nm where "nm = parseNameValue L src start"
  define pos0 where "pos0 = start + length nm"
  define pos1 where "pos1 = pos0 + whitespaces L src pos0"
  define pos2 where "pos2 = (if char_at src pos1 = Some CHR ''='' then pos1 + 1 else pos1)"
  define errors1 where "errors1 = (if char_at src pos1 = Some CHR ''='' then errors
                                    else errors @ [MissingChar CHR ''='' pos1])"
  define pos3 where "pos3 = pos2 + whitespaces L src pos2"
  define r where "r = (if char_at src pos3 = Some CHR ''('' then parseLiteral L src pos3
             else if char_at src pos3 = Some CHR ''$'' then parseVariable L src pos3
             else parseNmtoken L src pos3)"
  obtain v pushed where r: "r = (v, pushed)" by (cases r)
  have p0: "pos0 \<le> length src" using lexer_ok_name [OF assms(1,2)] by (simp add: pos0_def nm_def)
  have p1: "pos1 \<le> length src" using lexer_ok_ws [OF assms(1) p0] by (simp add: pos1_def)
  have p2: "pos2 \<le> length src" using p1 char_at_Some [of src pos1 "CHR ''=''"]
    by (auto simp: pos2_def)
  have p3: "pos3 \<le> length src" using lexer_ok_ws [OF assms(1) p2] by (simp add: pos3_def)
  have v: "pos3 \<le> value_end v \<and> value_end v \<le> length src \<and> pushed_ok pos3 pushed"
    using r lexer_ok_literal [OF assms(1), of src pos3 v pushed]
      lexer_ok_variable [OF assms(1), of src pos3 v pushed]
      lexer_ok_nmtoken [OF assms(1) p3, of v pushed]
    by (auto simp: r_def split: if_splits)
  have res: "opt = OptionParsed start (value_end v) nm v" "errors' = errors1 @ pushed"
    using assms(3) r
    unfolding parseOption_def Let_def 
      nm_def [symmetric] pos0_def [symmetric] pos1_def [symmetric]
    by (auto simp: pos2_def pos3_def errors1_def r_def split: if_splits prod.splits)
  have le: "start \<le> pos1" "pos1 \<le> pos3" by (simp_all add: pos3_def pos2_def pos1_def pos0_def)
  then have "start \<le> pos3" by simp
  from v pushed_ok_mono [OF _ this, of pushed] have pk: "pushed_ok start pushed" by simp
  have e1: "\<exists>n. errors1 = errors @ n \<and> pushed_ok start n"
    using le by (auto simp: errors1_def)
  then obtain n where n: "errors1 = errors @ n" "pushed_ok start n" by blast
  have "errors' = errors @ (n @ pushed)" "pushed_ok start (n @ pushed)"
    using res n pk by simp_all
  then have "\<exists>new. errors' = errors @ new \<and> pushed_ok start new" by blast
  with v res \<open>start \<le> pos3\<close> show ?thesis by simp
qed

lemma parseOptions_terminates:
  assumes L: "lexer_ok L"
  shows "pos \<le> length src \<Longrightarrow>
     \<exists>e os es. parseOptions L src pos opts errors = Some (e, os, es)
       \<and> pos \<le> e \<and> e \<le> length src
       \<and> (\<exists>new. es = errors @ new \<and> pushed_ok pos new)
       \<and> (\<exists>more. os = opts @ more \<and> (\<forall>x \<in> set more. pos \<le> option_start x))"
proof (induction "length src - pos" arbitrary: pos opts errors rule: less_induct)
  case less
  show ?case
  proof (cases "pos < length src")
    case False
    with less.prems show ?thesis
      by (subst parseOptions.simps) simp
  next
    case True
    define ws where "ws = whitespaces L src pos"
    have ws: "pos + ws \<le> length src"
      using lexer_ok_ws [OF L less.prems] by (simp add: ws_def)
    show ?thesis
    proof (cases "char_at src (pos + ws) = Some CHR ''}''")
      case brace: True
      with True less.prems show ?thesis
        by (subst parseOptions.simps) (simp add: ws_def [symmetric])
    next
      case nobrace: False
      define errors1 where
        "errors1 = (if ws = 0 then errors @ [MissingChar CHR '' '' pos] else errors)"
      obtain opt errors2 where po: "parseOption L src (pos + ws) errors1 = (opt, errors2)"
        by (cases "parseOption L src (pos + ws) errors1")
      from parseOption_range [OF L ws po]
      obtain new where r: "pos + ws \<le> option_end opt" "option_end opt \<le> length src"
        "option_start opt = pos + ws"
        and new: "errors2 = errors1 @ new" "pushed_ok (pos + ws) new"
        by blast
      have "pushed_ok pos new" using pushed_ok_mono [OF new(2), of pos] by simp
      then have ext: "\<exists>n. errors2 = errors @ n \<and> pushed_ok pos n"
        using new(1) by (auto simp: errors1_def)
      have unfold: "parseOptions L src pos opts errors =
          (if option_end opt = pos + ws then Some (pos + ws, opts, errors2)
           else parseOptions L src (option_end opt) (opts @ [opt]) errors2)"
        using True nobrace po
        by (subst parseOptions.simps) (simp add: ws_def [symmetric] errors1_def [symmetric])
      show ?thesis
      proof (cases "option_end opt = pos + ws")
        case same: True
        with unfold ws ext show ?thesis by simp
      next
        case adv: False
        with r have lt: "length src - option_end opt < length src - pos" and
          le: "pos \<le> option_end opt"
          using True by simp_all
        from less.hyps [OF lt r(2), of "opts @ [opt]" errors2]
        obtain e os es n2 more where rec:
          "parseOptions L src (option_end opt) (opts @ [opt]) errors2 = Some (e, os, es)"
          "option_end opt \<le> e" "e \<le> length src"
          "es = errors2 @ n2" "pushed_ok (option_end opt) n2"
          "os = (opts @ [opt]) @ more" "\<forall>x \<in> set more. option_end opt \<le> option_start x"
          by blast
        from ext obtain n1 where n1: "errors2 = errors @ n1" "pushed_ok pos n1" by blast
        have a: "es = errors @ (n1 @ n2)" "pushed_ok pos (n1 @ n2)"
          using rec(4,5) n1 pushed_ok_mono [OF rec(5) le] by simp_all
        have b: "os = opts @ (opt # more)" "\<forall>x \<in> set (opt # more). pos \<le> option_start x"
          using rec(6,7) r(3) le by auto
        have "parseOptions L src pos opts errors = Some (e, os, es)"
          using unfold adv rec(1) by simp
        moreover have "pos \<le> e" using le rec(2) by simp
        ultimately show ?thesis using rec(3) a b by blast
      qed
    qed
  qed
qed

lemma skip_to_close_range:
  "pos \<le> length src \<Longrightarrow>
     pos \<le> skip_to_close src pos \<and> skip_to_close src pos \<le> length src"
proof (induction src pos rule: skip_to_close.induct)
  case (1 src pos)
  then show ?case
    by (subst (1 2) skip_to_close.simps) auto
qed

lemma skip_to_close_no_brace:
  "CHR ''}'' \<notin> set (drop pos src) \<Longrightarrow> pos \<le> length src \<Longrightarrow> skip_to_close src pos = length src"
proof (induction src pos rule: skip_to_close.induct)
  case (1 src pos)
  show ?case
  proof (cases "pos < length src")
    case True
    from "1.prems"(1) True
    have here: "src ! pos \<noteq> CHR ''}''" and "CHR ''}'' \<notin> set (drop (pos + 1) src)"
      by (auto simp: Cons_nth_drop_Suc [symmetric])
    with "1.IH" True show ?thesis
      by (subst skip_to_close.simps) simp
  next
    case False
    with "1.prems" show ?thesis
      by (subst skip_to_close.simps) simp
  qed
qed

lemma parseArg_range:
  assumes "lexer_ok L" "pos \<le> length src" "parseArg L src pos errors = (arg, pos', errors')"
  shows "pos \<le> pos' \<and> pos' \<le> length src
       \<and> (\<exists>new. errors' = errors @ new \<and> pushed_ok pos new)
       \<and> (\<forall>v. arg = Some v \<longrightarrow> value_start v = pos \<and> value_end v = pos')"
proof (cases "char_at src pos = Some CHR ''(''")
  case True
  obtain v pushed where p: "parseLiteral L src pos = (v, pushed)"
    by (cases "parseLiteral L src pos")
  from lexer_ok_literal [OF assms(1) True p] assms(3) True p show ?thesis
    by (auto simp: parseArg_def)
next
  case False
  show ?thesis
  proof (cases "char_at src pos = Some CHR ''$''")
    case True
    obtain v pushed where p: "parseVariable L src pos = (v, pushed)"
      by (cases "parseVariable L src pos")
    from lexer_ok_variable [OF assms(1) True p] assms(3) True p show ?thesis
      by (auto simp: parseArg_def)
  next
    case no: False
    with False assms show ?thesis
      by (auto simp: parseArg_def)
  qed
qed

lemma parseExpressionOrMarkup_range:
  assumes L: "lexer_ok L" and start: "start < length src"
  shows "\<exists>body es new. parseExpressionOrMarkup L src start operand errors = Some (body, es)
       \<and> start < body_end body \<and> body_end body \<le> length src
       \<and> es = unshifted (char_at src start) operand @ errors @ new \<and> pushed_ok start new
       \<and> (if char_at src start = Some CHR '':''
          then \<exists>s e nm opts. body = ExpressionParsed operand s e nm opts
          else if char_at src start = Some CHR ''+''
          then \<exists>s e nm opts. body = MarkupStartParsed s e nm opts
          else \<exists>s e nm. body = MarkupEndParsed s e nm)"
proof -
  define nm where "nm = parseNameValue L src (start + 1)"
  define errors0 where
    "errors0 = (if nm = [] then errors @ [EmptyToken (start + 1) None] else errors)"
  have n: "start + 1 + length nm \<le> length src"
    using lexer_ok_name [OF L, of "start + 1" src] start by (simp add: nm_def)
  from parseOptions_terminates [OF L n, of "[]" errors0]
  obtain e os es new where po:
    "parseOptions L src (start + 1 + length nm) [] errors0 = Some (e, os, es)"
    and e: "start + 1 + length nm \<le> e" "e \<le> length src"
    and es: "es = errors0 @ new" "pushed_ok (start + 1 + length nm) new"
    and os: "\<forall>x \<in> set os. start + 1 + length nm \<le> option_start x"
    by auto
  have new: "pushed_ok start new" using pushed_ok_mono [OF es(2), of start] by simp
  have "\<exists>n0. errors0 = errors @ n0 \<and> pushed_ok start n0"
    by (auto simp: errors0_def)
  then obtain n0 where n0: "errors0 = errors @ n0" "pushed_ok start n0" by blast
  have es': "es = errors @ (n0 @ new)" "pushed_ok start (n0 @ new)"
    using es(1) n0 new by simp_all
  have first: "start \<le> option_start (os ! 0)" if "0 < length os"
    using os that by (metis add_leD1 nth_mem)
  define tail where "tail = (if 0 < length os
       then [ExtraContent (option_start (os ! 0)) (option_end (os ! (length os - 1)))] else [])"
  have tail: "pushed_ok start tail" using first by (simp add: tail_def)
  show ?thesis
  proof (cases "char_at src start = Some CHR '':''")
    case True
    with po e es' have
      "parseExpressionOrMarkup L src start operand errors
         = Some (ExpressionParsed operand start e nm os, es)"
      unfolding parseExpressionOrMarkup_def Let_def nm_def [symmetric] errors0_def [symmetric]
      by simp
    with True e es' show ?thesis
      by (auto simp: unshifted_def split: option.splits)
  next
    case False
    show ?thesis
    proof (cases "char_at src start = Some CHR ''+''")
      case True
      with False po have
        "parseExpressionOrMarkup L src start operand errors
           = Some (MarkupStartParsed start e nm os, unshifted (char_at src start) operand @ es)"
        unfolding parseExpressionOrMarkup_def Let_def nm_def [symmetric] errors0_def [symmetric]
        by (simp add: unshifted_def split: option.splits)
      with True False e es' show ?thesis
        by auto
    next
      case nplus: False
      with False po have
        "parseExpressionOrMarkup L src start operand errors
           = Some (MarkupEndParsed start e nm,
                   unshifted (char_at src start) operand @ es @ tail)"
        unfolding parseExpressionOrMarkup_def Let_def nm_def [symmetric] errors0_def [symmetric]
        by (simp add: unshifted_def tail_def split: option.splits)
      moreover have "es @ tail = errors @ ((n0 @ new) @ tail)"
        using es' by simp
      ultimately have A: "parseExpressionOrMarkup L src start operand errors
           = Some (MarkupEndParsed start e nm,
                   unshifted (char_at src start) operand @ errors @ ((n0 @ new) @ tail))"
        by simp
      have P: "pushed_ok start ((n0 @ new) @ tail)"
        using es' tail by simp
      show ?thesis
        apply (rule exI [of _ "MarkupEndParsed start e nm"])
        apply (rule exI [of _ "unshifted (char_at src start) operand @ errors @ ((n0 @ new) @ tail)"])
        apply (rule exI [of _ "(n0 @ new) @ tail"])
        using A P False nplus e
        by simp
    qed
  qed
qed


lemma parseBody_range:
  assumes L: "lexer_ok L" and pos: "pos \<le> length src"
  shows "\<exists>body pos' es j new. parseBody L src pos arg errors = Some (body, pos', es, j)
       \<and> pos \<le> pos' \<and> pos' \<le> length src
       \<and> ((\<exists>s e t. body = JunkParsed s e t) \<longrightarrow>
            j = Some (length errors) \<and> es = errors @ [ParseErr pos pos])
       \<and> (if char_at src pos \<in> {Some CHR '':'', Some CHR ''+'', Some CHR ''-''}
          then es = unshifted (char_at src pos) arg @ errors @ new
          else es = errors @ new)
       \<and> pushed_ok pos new
       \<and> (char_at src pos = Some CHR ''+'' \<longrightarrow> (\<exists>s e nm opts. body = MarkupStartParsed s e nm opts))
       \<and> (char_at src pos = Some CHR ''-'' \<longrightarrow> (\<exists>s e nm. body = MarkupEndParsed s e nm))"
proof (cases "char_at src pos \<in> {Some CHR '':'', Some CHR ''+'', Some CHR ''-''}")
  case True
  then have "pos < length src"
    by (auto dest: char_at_Some)
  from parseExpressionOrMarkup_range [OF L this, of arg errors]
  obtain body es new where r: "parseExpressionOrMarkup L src pos arg errors = Some (body, es)"
    "pos < body_end body" "body_end body \<le> length src"
    "es = unshifted (char_at src pos) arg @ errors @ new" "pushed_ok pos new"
    and shape: "if char_at src pos = Some CHR '':''
          then \<exists>s e nm opts. body = ExpressionParsed arg s e nm opts
          else if char_at src pos = Some CHR ''+''
          then \<exists>s e nm opts. body = MarkupStartParsed s e nm opts
          else \<exists>s e nm. body = MarkupEndParsed s e nm"
    by blast
  have nj: "\<not> (\<exists>s e t. body = JunkParsed s e t)"
    using shape by (auto split: if_splits)
  have sh: "char_at src pos = Some CHR ''+'' \<longrightarrow> (\<exists>s e nm opts. body = MarkupStartParsed s e nm opts)"
    "char_at src pos = Some CHR ''-'' \<longrightarrow> (\<exists>s e nm. body = MarkupEndParsed s e nm)"
    using shape by (auto split: if_splits)
  have "parseBody L src pos arg errors = Some (body, body_end body, es, None)"
    using True r(1) by (simp add: parseBody_def)
  with r nj sh True show ?thesis
    apply (rule_tac x = body in exI)
    apply (rule_tac x = "body_end body" in exI)
    apply (rule_tac x = es in exI)
    apply (rule_tac x = None in exI)
    apply (rule_tac x = new in exI)
    by simp
next
  case False
  show ?thesis
  proof (cases arg)
    case None
    with False pos show ?thesis
      apply (rule_tac x = "JunkParsed pos pos (substring src pos (pos + 1))" in exI)
      apply (rule_tac x = pos in exI)
      apply (rule_tac x = "errors @ [ParseErr pos pos]" in exI)
      apply (rule_tac x = "Some (length errors)" in exI)
      apply (rule_tac x = "[ParseErr pos pos]" in exI)
      by (simp add: parseBody_def)
  next
    case (Some v)
    with False pos show ?thesis
      apply (rule_tac x = "OperandBody v" in exI)
      apply (rule_tac x = pos in exI)
      apply (rule_tac x = errors in exI)
      apply (rule_tac x = None in exI)
      apply (rule_tac x = "[]" in exI)
      by (simp add: parseBody_def)
  qed
qed

lemma nth_in_drop: "m \<le> p \<Longrightarrow> p < length xs \<Longrightarrow> xs ! p \<in> set (drop m xs)"
proof -
  assume a: "m \<le> p" "p < length xs"
  then have "drop m xs ! (p - m) = xs ! p" "p - m < length (drop m xs)" by simp_all
  then show ?thesis by (metis nth_mem)
qed

lemma drop_subset: "m \<le> n \<Longrightarrow> set (drop n xs) \<subseteq> set (drop m xs)"
proof -
  assume "m \<le> n"
  then have "drop n xs = drop (n - m) (drop m xs)" by simp
  then show ?thesis by (simp only: set_drop_subset)
qed

lemma closePlaceholder_range:
  assumes L: "lexer_ok L" and pos0: "pos0 \<le> length src"
    and junk: "(\<exists>s e t. body = JunkParsed s e t) \<longrightarrow>
                 junkError = Some (length errors0) \<and> errors = errors0 @ [ParseErr q q]"
    and res: "closePlaceholder L src start body pos0 errors junkError = (node, errs)"
  shows "placeholder_start node = start \<and> placeholder_end node \<le> length src
       \<and> pos0 \<le> placeholder_end node
       \<and> ((\<forall>s e t. body \<noteq> JunkParsed s e t) \<longrightarrow>
            placeholder_body node = body \<and> (\<exists>new. errs = errors @ new \<and> (\<forall>e \<in> set new. pos0 \<le> error_start e)))
       \<and> (CHR ''}'' \<notin> set (drop pos0 src) \<longrightarrow>
            placeholder_end node = length src \<and> errs \<noteq> [] \<and>
            ((last errs = MissingChar CHR ''}'' (length src)
                \<and> missing_braces errs = missing_braces errors + 1)
             \<or> ((\<exists>s. last errs = ExtraContent s (length src) \<or> last errs = ParseErr s (length src))
                \<and> missing_braces errs = missing_braces errors)))"
proof -
  define pos where "pos = pos0 + whitespaces L src pos0"
  have pos: "pos \<le> length src" "pos0 \<le> pos"
    using lexer_ok_ws [OF L pos0] by (simp_all add: pos_def)
  show ?thesis
  proof (cases "pos \<ge> length src")
    case True
    with pos have eq: "pos = length src" by simp
    from res True have "node = PlaceholderParsed start pos body"
      "errs = errors @ [MissingChar CHR ''}'' pos]"
      by (simp_all add: closePlaceholder_def pos_def [symmetric])
    with eq pos0 show ?thesis by simp
  next
    case False
    then have lt: "pos < length src" by simp
    show ?thesis
    proof (cases "src ! pos = CHR ''}''")
      case True
      from res lt True have node: "node = PlaceholderParsed start (pos + 1) body" "errs = errors"
        by (simp_all add: closePlaceholder_def pos_def [symmetric])
      have "CHR ''}'' \<in> set (drop pos0 src)"
        using nth_in_drop [OF pos(2) lt] True by simp
      with node lt pos show ?thesis by simp
    next
      case nb: False
      define pos' where "pos' = skip_to_close src pos"
      have r: "pos \<le> pos'" "pos' \<le> length src"
        using skip_to_close_range [OF pos(1)] by (simp_all add: pos'_def)
      have full: "pos' = length src" if "CHR ''}'' \<notin> set (drop pos0 src)"
        using skip_to_close_no_brace [of pos src] that drop_subset [OF pos(2), of src] pos(1)
        by (auto simp: pos'_def)
      show ?thesis
      proof (cases "\<exists>s e t. body = JunkParsed s e t")
        case True
        then obtain s e t where b: "body = JunkParsed s e t" by blast
        with junk have j: "junkError = Some (length errors0)"
          "errors = errors0 @ [ParseErr q q]" by blast+
        from res lt nb b j
        have "node = PlaceholderParsed start pos' (JunkParsed s pos' (substring src s pos'))"
          "errs = errors0 @ [ParseErr q pos']"
          by (simp_all add: closePlaceholder_def pos_def [symmetric] pos'_def [symmetric])
        with r pos full j b show ?thesis by auto
      next
        case False
        with res lt nb
        have "node = PlaceholderParsed start pos' body" "errs = errors @ [ExtraContent pos pos']"
          by (cases body; simp add: closePlaceholder_def pos_def [symmetric] pos'_def [symmetric])+
        with r pos full show ?thesis by auto
      qed
    qed
  qed
qed


lemma missing_braces_unshifted [simp]: "missing_braces (unshifted sigil operand) = 0"
  by (simp add: unshifted_def split: option.splits)

lemma pushed_ok_braces: "pushed_ok pos new \<Longrightarrow> missing_braces new = 0"
  by (simp add: pushed_ok_def)

lemma pushed_ok_starts: "pushed_ok pos new \<Longrightarrow> e \<in> set new \<Longrightarrow> pos \<le> error_start e"
  by (simp add: pushed_ok_def)

lemma closePlaceholder_cases:
  assumes L: "lexer_ok L" and pos: "pos = pos0 + whitespaces L src pos0"
    and junk: "is_junk body \<longrightarrow>
                 junkError = Some (length errors0) \<and> errors = errors0 @ [ParseErr q q]"
    and res: "closePlaceholder L src start body pos0 errors junkError = (node, errs)"
  shows "(pos = length src \<longrightarrow>
            node = PlaceholderParsed start (length src) body
          \<and> errs = errors @ [MissingChar CHR ''}'' (length src)])
       \<and> (pos < length src \<and> src ! pos = CHR ''}'' \<longrightarrow>
            node = PlaceholderParsed start (pos + 1) body \<and> errs = errors)
       \<and> (pos < length src \<and> CHR ''}'' \<notin> set (drop pos src) \<longrightarrow>
            placeholder_end node = length src
          \<and> (if is_junk body then errs = errors0 @ [ParseErr q (length src)]
              else placeholder_body node = body
                 \<and> errs = errors @ [ExtraContent pos (length src)]))"
proof -
  have a: "node = PlaceholderParsed start (length src) body
          \<and> errs = errors @ [MissingChar CHR ''}'' (length src)]" if "pos = length src"
    using res that by (auto simp: closePlaceholder_def Let_def pos [symmetric])
  have b: "node = PlaceholderParsed start (pos + 1) body \<and> errs = errors"
    if "pos < length src" "src ! pos = CHR ''}''"
    using res that by (auto simp: closePlaceholder_def Let_def pos [symmetric])
  have c: "placeholder_end node = length src
          \<and> (if is_junk body then errs = errors0 @ [ParseErr q (length src)]
              else placeholder_body node = body
                 \<and> errs = errors @ [ExtraContent pos (length src)])"
    if lt: "pos < length src" and nb: "CHR ''}'' \<notin> set (drop pos src)"
  proof -
    have here: "src ! pos \<noteq> CHR ''}''"
      using nth_in_drop [of pos pos src] lt nb by auto
    have full: "skip_to_close src pos = length src"
      using skip_to_close_no_brace [OF nb] lt by simp
    show ?thesis
    proof (cases "is_junk body")
      case True
      then obtain s e t where bd: "body = JunkParsed s e t" by (cases body) simp_all
      from True junk have j: "junkError = Some (length errors0)"
        "errors = errors0 @ [ParseErr q q]" by blast+
      from res lt here bd j full True show ?thesis
        by (auto simp: closePlaceholder_def Let_def pos [symmetric])
    next
      case False
      with res lt here full show ?thesis
        by (cases body; auto simp: closePlaceholder_def Let_def pos [symmetric])
    qed
  qed
  from a b c show ?thesis by blast
qed

section \<open>Well-formed placeholders parse without errors\<close>

lemma skip_ws_range: "lexer_ok L \<Longrightarrow> p \<le> length src \<Longrightarrow> skip_ws L src p \<le> length src"
  by (simp add: skip_ws_def lexer_ok_ws)

lemma skip_ws_le: "p \<le> skip_ws L src p"
  by (simp add: skip_ws_def)

lemma skip_ws_idem: "lexer_tokens L \<Longrightarrow> whitespaces L src (skip_ws L src p) = 0"
  by (simp add: skip_ws_def lexer_tokens_def)

lemma parseArg_operand:
  "operand_at L src p q \<Longrightarrow>
     \<exists>v. parseArg L src p errors = (Some v, q, errors) \<and> value_end v = q"
  by (cases "parseLiteral L src p"; cases "parseVariable L src p")
     (auto simp: operand_at_def parseArg_def)

lemma parseArg_none:
  "char_at src p \<noteq> Some CHR ''('' \<Longrightarrow> char_at src p \<noteq> Some CHR ''$'' \<Longrightarrow>
     parseArg L src p errors = (None, p, errors)"
  by (simp add: parseArg_def)

lemma operand_at_range:
  assumes "lexer_ok L" "operand_at L src p q"
  shows "p \<le> q \<and> q \<le> length src"
proof -
  from assms(2) consider
    (lit) "char_at src p = Some CHR ''(''" "value_end (fst (parseLiteral L src p)) = q"
    | (var) "char_at src p = Some CHR ''$''" "value_end (fst (parseVariable L src p)) = q"
    by (auto simp: operand_at_def)
  then show ?thesis
  proof cases
    case lit
    with lexer_ok_literal [OF assms(1) lit(1), of "fst (parseLiteral L src p)" "snd (parseLiteral L src p)"]
    show ?thesis by simp
  next
    case var
    with lexer_ok_variable [OF assms(1) var(1), of "fst (parseVariable L src p)" "snd (parseVariable L src p)"]
    show ?thesis by simp
  qed
qed

lemma value_at_range:
  assumes "lexer_ok L" "value_at L src p q" "p \<le> length src"
  shows "p \<le> q \<and> q \<le> length src"
proof (cases "operand_at L src p q")
  case True
  with operand_at_range [OF assms(1)] show ?thesis by simp
next
  case False
  with assms(2) have "value_end (fst (parseNmtoken L src p)) = q"
    by (simp add: value_at_def)
  with lexer_ok_nmtoken [OF assms(1,3), of "fst (parseNmtoken L src p)" "snd (parseNmtoken L src p)"]
  show ?thesis by simp
qed

lemma parseOption_option_at:
  assumes L: "lexer_ok L" and o: "option_at L src p q"
  shows "\<exists>opt. parseOption L src p errors = (opt, errors) \<and> option_end opt = q \<and> p < q
           \<and> q \<le> length src \<and> p < length src"
proof -
  define nm where "nm = parseNameValue L src p"
  define n where "n = p + length nm"
  define e where "e = skip_ws L src n"
  define s where "s = skip_ws L src (e + 1)"
  from o have nm: "nm \<noteq> []" and eq: "char_at src e = Some CHR ''=''" and v: "value_at L src s q"
    by (auto simp: option_at_def name_at_def nm_def n_def e_def s_def)
  from eq have e: "e < length src" by (auto dest: char_at_Some)
  then have s: "s \<le> length src" by (simp add: s_def skip_ws_range [OF L])
  have le: "p < n" "n \<le> e" "e < s"
    using nm skip_ws_le [of n L src] skip_ws_le [of "e + 1" L src]
    by (simp_all add: n_def e_def s_def)
  from value_at_range [OF L v s] have q: "s \<le> q" "q \<le> length src" by simp_all
  obtain val pushed where r: "(if char_at src s = Some CHR ''('' then parseLiteral L src s
             else if char_at src s = Some CHR ''$'' then parseVariable L src s
             else parseNmtoken L src s) = (val, pushed)"
    by (cases "if char_at src s = Some CHR ''('' then parseLiteral L src s
             else if char_at src s = Some CHR ''$'' then parseVariable L src s
             else parseNmtoken L src s")
  have val: "value_end val = q \<and> pushed = []"
    using v r by (auto simp: value_at_def operand_at_def split: if_splits)
  have "parseOption L src p errors = (OptionParsed p (value_end val) nm val, errors @ pushed)"
    unfolding parseOption_def Let_def nm_def [symmetric] n_def [symmetric]
      skip_ws_def [symmetric] e_def [symmetric]
    by (simp only: eq simp_thms if_True prod.case s_def [symmetric] r)
  with val le q e show ?thesis by simp
qed

lemma parseOptions_options_at:
  assumes L: "lexer_ok L" and T: "lexer_tokens L"
  shows "options_at L src p q \<Longrightarrow> char_at src (skip_ws L src q) = Some CHR ''}'' \<Longrightarrow>
           \<exists>more. parseOptions L src p opts errors = Some (q, opts @ more, errors)"
proof (induction arbitrary: opts rule: options_at.induct)
  case (no_option p)
  then show ?case
    by (subst parseOptions.simps) (simp add: skip_ws_def)
next
  case (one_more p q r)
  from parseOption_option_at [OF L one_more.hyps(2), of errors]
  obtain opt where po: "parseOption L src (skip_ws L src p) errors = (opt, errors)"
    and q: "option_end opt = q" "skip_ws L src p < q" "skip_ws L src p < length src"
    by blast
  have p: "p < length src" using q(3) skip_ws_le [of p L src] by simp
  from one_more.hyps(2) have "parseNameValue L src (skip_ws L src p) \<noteq> []"
    by (auto simp: option_at_def name_at_def)
  with T have nb: "char_at src (p + whitespaces L src p) \<noteq> Some CHR ''}''"
    by (simp add: lexer_tokens_def skip_ws_def)
  from one_more.IH [OF one_more.prems, of "opts @ [opt]"]
  obtain more where "parseOptions L src q (opts @ [opt]) errors = Some (r, (opts @ [opt]) @ more, errors)"
    by blast
  then have "parseOptions L src p opts errors = Some (r, opts @ (opt # more), errors)"
    using p nb one_more.hyps(1) po q
    by (subst parseOptions.simps) (simp add: skip_ws_def)
  then show ?case by blast
qed

lemma parseExpressionOrMarkup_annotation:
  assumes L: "lexer_ok L" and T: "lexer_tokens L"
    and a: "annotation_at L src p q" and close: "char_at src (skip_ws L src q) = Some CHR ''}''"
  shows "\<exists>nm opts. parseExpressionOrMarkup L src p operand errors
           = Some (ExpressionParsed operand p q nm opts, errors)"
proof -
  from a obtain n where c: "char_at src p = Some CHR '':''"
    and n: "parseNameValue L src (p + 1) \<noteq> []" "n = p + 1 + length (parseNameValue L src (p + 1))"
    and o: "options_at L src n q"
    by (auto simp: annotation_at_def name_at_def)
  from parseOptions_options_at [OF L T o close, of "[]" errors]
  obtain more where "parseOptions L src n [] errors = Some (q, more, errors)" by auto
  with c n show ?thesis
    by (simp add: parseExpressionOrMarkup_def)
qed

lemma parseExpressionOrMarkup_markup_start:
  assumes L: "lexer_ok L" and T: "lexer_tokens L"
    and a: "markup_start_at L src p q" and close: "char_at src (skip_ws L src q) = Some CHR ''}''"
  shows "\<exists>nm opts. parseExpressionOrMarkup L src p None errors
           = Some (MarkupStartParsed p q nm opts, errors)"
proof -
  from a obtain n where c: "char_at src p = Some CHR ''+''"
    and n: "parseNameValue L src (p + 1) \<noteq> []" "n = p + 1 + length (parseNameValue L src (p + 1))"
    and o: "options_at L src n q"
    by (auto simp: markup_start_at_def name_at_def)
  from parseOptions_options_at [OF L T o close, of "[]" errors]
  obtain more where "parseOptions L src n [] errors = Some (q, more, errors)" by auto
  with c n show ?thesis
    by (simp add: parseExpressionOrMarkup_def)
qed

lemma parseExpressionOrMarkup_markup_end:
  assumes L: "lexer_ok L" and T: "lexer_tokens L"
    and a: "markup_end_at L src p q" and close: "char_at src (skip_ws L src q) = Some CHR ''}''"
  shows "\<exists>nm. parseExpressionOrMarkup L src p None errors
           = Some (MarkupEndParsed p q nm, errors)"
proof -
  from a have c: "char_at src p = Some CHR ''-''"
    and n: "parseNameValue L src (p + 1) \<noteq> []" "q = p + 1 + length (parseNameValue L src (p + 1))"
    by (auto simp: markup_end_at_def name_at_def)
  have "parseOptions L src q [] errors = Some (q, [], errors)"
    using close by (subst parseOptions.simps) (simp add: skip_ws_def)
  with c n show ?thesis
    by (simp add: parseExpressionOrMarkup_def Let_def)
qed

lemma closePlaceholder_closed:
  assumes "char_at src (skip_ws L src q) = Some CHR ''}''"
  shows "closePlaceholder L src start body q errors j
           = (PlaceholderParsed start (skip_ws L src q + 1) body, errors)"
  using char_at_Some [OF assms]
  by (simp add: closePlaceholder_def skip_ws_def)

section \<open>The sample helpers meet the assumptions\<close>

lemma sample_lexer_simps [simp]:
  "whitespaces sample_lexer = sample_whitespaces"
  "parseNameValue sample_lexer = sample_parseNameValue"
  "parseNmtoken sample_lexer = sample_parseNmtoken"
  "parseLiteral sample_lexer = sample_parseLiteral"
  "parseVariable sample_lexer = sample_parseVariable"
  by (simp_all add: sample_lexer_def)

lemma sample_whitespaces_range:
  "pos \<le> length src \<Longrightarrow> pos + sample_whitespaces src pos \<le> length src"
  using length_takeWhile_le [of is_whitespace "drop pos src"]
  by (simp add: sample_whitespaces_def)

lemma sample_parseNameValue_range:
  assumes "pos \<le> length src"
  shows "pos + length (sample_parseNameValue src pos) \<le> length src"
proof (cases "drop pos src")
  case Nil
  with assms show ?thesis by (simp add: sample_parseNameValue_def)
next
  case (Cons c cs)
  have "length (c # cs) = length src - pos"
    using Cons [symmetric] by simp
  moreover have "length (takeWhile is_name_char cs) \<le> length cs"
    by (rule length_takeWhile_le)
  ultimately have "Suc (pos + length (takeWhile is_name_char cs)) \<le> length src"
    using assms by simp
  with assms Cons show ?thesis by (simp add: sample_parseNameValue_def)
qed

lemma sample_parseNmtoken_ok:
  assumes "pos \<le> length src"
  shows "helper_ok src pos (sample_parseNmtoken src pos)"
  using assms length_takeWhile_le [of is_name_char "drop pos src"]
  by (simp add: helper_ok_def sample_parseNmtoken_def Let_def)

lemma literal_body_length: "literal_body xs = (n, v, ok) \<Longrightarrow> n \<le> length xs"
proof (induction xs arbitrary: n v ok rule: literal_body.induct)
  case 1
  then show ?case by simp
next
  case (2 c cs)
  show ?case
  proof (cases "c = CHR '')''")
    case True
    with "2.prems" show ?thesis by simp
  next
    case False
    show ?thesis
    proof (cases "c = CHR 0x5C \<and> cs \<noteq> []")
      case True
      obtain n' v' ok' where r: "literal_body (tl cs) = (n', v', ok')"
        by (cases "literal_body (tl cs)")
      from "2.IH"(1) [OF False True r] have "n' \<le> length (tl cs)" .
      moreover from True have "length (tl cs) + 1 = length cs" by (cases cs) simp_all
      ultimately have "n' + 2 \<le> length (c # cs)" by simp
      moreover have "n = n' + 2" using "2.prems" False True r by simp
      ultimately show ?thesis by simp
    next
      case no: False
      obtain n' v' ok' where r: "literal_body cs = (n', v', ok')"
        by (cases "literal_body cs")
      from "2.IH"(2) [OF False no r] have "n' \<le> length cs" .
      then show ?thesis
        using "2.prems" False no r by auto
    qed
  qed
qed

lemma sample_parseLiteral_ok:
  assumes "char_at src pos = Some CHR ''(''"
  shows "helper_ok src pos (sample_parseLiteral src pos)"
proof -
  from assms have pos: "pos < length src" by (auto dest: char_at_Some)
  obtain n v ok where r: "literal_body (drop (pos + 1) src) = (n, v, ok)"
    by (cases "literal_body (drop (pos + 1) src)")
  from literal_body_length [OF r] pos have "pos + 1 + n \<le> length src" by simp
  with pos r show ?thesis
    by (simp add: helper_ok_def sample_parseLiteral_def)
qed

lemma sample_parseVariable_ok:
  assumes "char_at src pos = Some CHR ''$''"
  shows "helper_ok src pos (sample_parseVariable src pos)"
proof -
  from assms have pos: "pos + 1 \<le> length src" by (auto dest: char_at_Some)
  from sample_parseNameValue_range [OF pos] show ?thesis
    by (simp add: helper_ok_def sample_parseVariable_def Let_def)
qed

lemma sample_lexer_ok: "lexer_ok sample_lexer"
  unfolding lexer_ok_def
  by (simp add: sample_whitespaces_range sample_parseNameValue_range sample_parseNmtoken_ok
      sample_parseLiteral_ok sample_parseVariable_ok)

lemma sample_whitespaces_idem:
  "sample_whitespaces src (p + sample_whitespaces src p) = 0"
proof -
  have "drop (p + length (takeWhile is_whitespace (drop p src))) src
          = dropWhile is_whitespace (drop p src)"
    by (simp add: dropWhile_eq_drop add.commute)
  moreover have "takeWhile is_whitespace (dropWhile is_whitespace xs) = []" for xs
    by (induction xs) simp_all
  ultimately show ?thesis by (simp add: sample_whitespaces_def)
qed

lemma sample_name_no_brace:
  assumes "sample_parseNameValue src p \<noteq> []"
  shows "char_at src p \<noteq> Some CHR ''}''"
proof (cases "drop p src")
  case Nil
  with assms show ?thesis by (simp add: sample_parseNameValue_def)
next
  case (Cons c cs)
  with assms have c: "is_name_start c"
    by (simp add: sample_parseNameValue_def split: if_splits)
  have "p < length src" using Cons by (cases "p < length src") simp_all
  then have "src ! p = c" using Cons by (simp add: hd_drop_conv_nth [symmetric])
  moreover have "\<not> is_name_start CHR ''}''" by (simp add: is_name_start_def)
  ultimately show ?thesis using c by (auto simp: char_at_def)
qed

lemma sample_lexer_tokens: "lexer_tokens sample_lexer"
  unfolding lexer_tokens_def
  by (simp add: sample_whitespaces_idem sample_name_no_brace)

section \<open>The parser on sample inputs\<close>

lemmas sample_defs =
  skip_ws_def char_at_def sample_whitespaces_def sample_parseNameValue_def
  sample_parseNmtoken_def sample_parseVariable_def sample_parseLiteral_def
  is_whitespace_def is_name_start_def is_name_char_def Let_def

lemmas grammar_defs =
  option_at_def name_at_def value_at_def operand_at_def annotation_at_def

lemma sample_expression_options: "options_at sample_lexer ''{$x :f a=b}'' 6 10"
  by (rule options_at.one_more [where q = 10])
     (simp_all add: options_at.no_option grammar_defs sample_defs)

lemma sample_expression_well_formed: "well_formed sample_lexer ''{$x :f a=b}'' 0 11"
proof -
  have "annotation_at sample_lexer ''{$x :f a=b}'' 4 10"
    using sample_expression_options by (simp add: grammar_defs sample_defs)
  moreover have "operand_at sample_lexer ''{$x :f a=b}'' 1 3"
    by (simp add: grammar_defs sample_defs)
  moreover have "skip_ws sample_lexer ''{$x :f a=b}'' 3 = 4"
    "skip_ws sample_lexer ''{$x :f a=b}'' (0 + 1) = 1"
    "skip_ws sample_lexer ''{$x :f a=b}'' 10 = 10"
    "char_at ''{$x :f a=b}'' 10 = Some CHR ''}''"
    "char_at ''{$x :f a=b}'' 0 = Some CHR ''{''"
    by (simp_all add: sample_defs)
  ultimately show ?thesis
    unfolding well_formed_def body_at_def
    by (intro conjI exI [of _ 10] disjI2 disjI1 exI [of _ 3]) simp_all
qed

lemma sample_expression:
  "parsePlaceholder sample_lexer ''{$x :f a=b}'' 0 []
     = Some (PlaceholderParsed 0 11
              (ExpressionParsed (Some (VariableRefParsed 1 3 ''x'')) 4 10 ''f''
                 [OptionParsed 7 10 ''a'' (NmtokenParsed 9 10 ''b'')]), [])"
  by code_simp

lemma sample_truncated:
  "parsePlaceholder sample_lexer ''{:f a=b'' 0 []
     = Some (PlaceholderParsed 0 7
              (ExpressionParsed None 1 7 ''f'' [OptionParsed 4 7 ''a'' (NmtokenParsed 6 7 ''b'')]),
             [MissingChar CHR ''}'' 7])"
  by code_simp

lemma sample_truncated_state:
  "before_close sample_lexer ''{:f a=b'' 0 []
     = Some (ExpressionParsed None 1 7 ''f'' [OptionParsed 4 7 ''a'' (NmtokenParsed 6 7 ''b'')],
             7, [])"
  by code_simp

lemma sample_brace_in_literal:
  "before_close sample_lexer ''{(a}b)'' 0 []
     = Some (OperandBody (LiteralParsed 1 6 ''a}b''), 6, [])"
  "parsePlaceholder sample_lexer ''{(a}b)'' 0 []
     = Some (PlaceholderParsed 0 6 (OperandBody (LiteralParsed 1 6 ''a}b'')),
             [MissingChar CHR ''}'' 6])"
  by code_simp+

lemma sample_truncated_extra:
  "before_close sample_lexer ''{$x abc'' 0 []
     = Some (OperandBody (VariableRefParsed 1 3 ''x''), 4, [])"
  "parsePlaceholder sample_lexer ''{$x abc'' 0 []
     = Some (PlaceholderParsed 0 7 (OperandBody (VariableRefParsed 1 3 ''x'')),
             [ExtraContent 4 7])"
  by code_simp+

lemma sample_truncated_junk_state:
  "before_close sample_lexer ''{a'' 0 [] = Some (JunkParsed 1 1 ''a'', 1, [ParseErr 1 1])"
  by code_simp

lemma sample_truncated_junk:
  "parsePlaceholder sample_lexer ''{a'' 0 []
     = Some (PlaceholderParsed 0 2 (JunkParsed 1 2 ''a''), [ParseErr 1 2])"
  by code_simp

lemma sample_truncated_literal:
  "parsePlaceholder sample_lexer ''{(a'' 0 []
     = Some (PlaceholderParsed 0 3 (OperandBody (LiteralParsed 1 3 ''a'')),
             [MissingChar CHR '')'' 3, MissingChar CHR ''}'' 3])"
  by code_simp

lemma sample_past_the_end:
  "parsePlaceholder sample_lexer [] 0 []
     = Some (PlaceholderParsed 0 1 (JunkParsed 1 1 []), [ParseErr 1 1, MissingChar CHR ''}'' 1])"
  by code_simp

lemma sample_operand_markup:
  "parsePlaceholder sample_lexer ''{$x +b}'' 0 []
     = Some (PlaceholderParsed 0 7 (MarkupStartParsed 4 6 ''b'' []), [ExtraContent 1 3])"
  by code_simp

lemma sample_markup_end_options:
  "parsePlaceholder sample_lexer ''{-b a=c}'' 0 []
     = Some (PlaceholderParsed 0 8 (MarkupEndParsed 1 7 ''b''), [ExtraContent 4 7])"
  by code_simp

lemma sample_empty:
  "parsePlaceholder sample_lexer ''{}'' 0 []
     = Some (PlaceholderParsed 0 2 (JunkParsed 1 1 ''}''), [ParseErr 1 1])"
  by code_simp

lemma sample_first_placeholder:
  "parsePlaceholder sample_lexer ''{a}{$x +b}'' 0 []
     = Some (PlaceholderParsed 0 2 (JunkParsed 1 2 ''a''), [ParseErr 1 2])"
  by code_simp

lemma sample_second_placeholder:
  "parsePlaceholder sample_lexer ''{a}{$x +b}'' 3 [ParseErr 1 2]
     = Some (PlaceholderParsed 3 10 (MarkupStartParsed 7 9 ''b'' []),
             [ExtraContent 4 6, ParseErr 1 2])"
  by code_simp

lemma sample_operand_markup_end:
  "parsePlaceholder sample_lexer ''{$x -b a}'' 0 []
     = Some (PlaceholderParsed 0 9 (MarkupEndParsed 4 8 ''b''),
             [ExtraContent 1 3, MissingChar CHR ''='' 8, EmptyToken 8 None, ExtraContent 7 8])"
  by code_simp

text \<open>The three inputs conform to the grammar as the specification writes it.\<close>

lemma sample_spec_operand_markup: "spec_well_formed sample_lexer ''{$x +b}'' 0 7"
proof -
  have "spec_markup_tail_at sample_lexer ''{$x +b}'' 4 6"
    by (simp add: spec_markup_tail_at_def options_at.no_option grammar_defs sample_defs)
  moreover have "operand_at sample_lexer ''{$x +b}'' 1 3"
    by (simp add: grammar_defs sample_defs)
  moreover have "skip_ws sample_lexer ''{$x +b}'' 3 = 4"
    "skip_ws sample_lexer ''{$x +b}'' (0 + 1) = 1"
    "skip_ws sample_lexer ''{$x +b}'' 6 = 6"
    "char_at ''{$x +b}'' 6 = Some CHR ''}''"
    "char_at ''{$x +b}'' 0 = Some CHR ''{''"
    by (simp_all add: sample_defs)
  ultimately show ?thesis
    unfolding spec_well_formed_def spec_body_at_def
    by (intro conjI exI [of _ 6] exI [of _ 3] disjI2) simp_all
qed

lemma sample_spec_markup_end_options: "spec_well_formed sample_lexer ''{-b a=c}'' 0 8"
proof -
  have "options_at sample_lexer ''{-b a=c}'' 3 7"
    by (rule options_at.one_more [where q = 7])
       (simp_all add: options_at.no_option grammar_defs sample_defs)
  moreover have "1 + 1 + length (sample_parseNameValue ''{-b a=c}'' (1 + 1)) = 3"
    by (simp add: sample_defs)
  ultimately have tail: "spec_markup_tail_at sample_lexer ''{-b a=c}'' 1 7"
    unfolding spec_markup_tail_at_def name_at_def
    by (intro conjI exI [of _ 3] disjI2) (simp_all add: sample_defs)
  have ws: "skip_ws sample_lexer ''{-b a=c}'' 1 = 1"
    "skip_ws sample_lexer ''{-b a=c}'' (0 + 1) = 1"
    "skip_ws sample_lexer ''{-b a=c}'' 7 = 7"
    "char_at ''{-b a=c}'' 7 = Some CHR ''}''"
    "char_at ''{-b a=c}'' 0 = Some CHR ''{''"
    by (simp_all add: sample_defs)
  have "spec_body_at sample_lexer ''{-b a=c}'' 1 7"
    unfolding spec_body_at_def using tail ws(1) by (intro exI [of _ 1]) simp
  with ws show ?thesis
    unfolding spec_well_formed_def by (intro conjI exI [of _ 7]) simp_all
qed

lemma sample_spec_empty: "spec_well_formed sample_lexer ''{}'' 0 2"
proof -
  have "skip_ws sample_lexer ''{}'' 1 = 1"
    "skip_ws sample_lexer ''{}'' (0 + 1) = 1"
    "char_at ''{}'' 1 = Some CHR ''}''"
    "char_at ''{}'' 0 = Some CHR ''{''"
    by (simp_all add: sample_defs)
  then show ?thesis
    unfolding spec_well_formed_def spec_body_at_def
    by (intro conjI exI [of _ 1]) simp_all
qed

text \<open>Every well-formed placeholder conforms to the grammar as the specification writes it.\<close>

lemma well_formed_spec:
  assumes "lexer_tokens L" "well_formed L src start stop"
  shows "spec_well_formed L src start stop"
proof -
  define p where "p = skip_ws L src (start + 1)"
  have idem: "skip_ws L src p = p"
    using skip_ws_idem [OF assms(1), of src "start + 1"] by (simp add: p_def skip_ws_def)
  have "spec_body_at L src p q" if "body_at L src p q" for q
    using that idem unfolding body_at_def spec_body_at_def spec_markup_tail_at_def
      markup_start_at_def markup_end_at_def
    by (metis options_at.no_option)
  with assms(2) show ?thesis
    unfolding well_formed_def spec_well_formed_def p_def [symmetric] by blast
qed

section \<open>The claims about the parser\<close>

text \<open>
  Claim C4. With helpers that stay inside the source and do not themselves report the
  closing brace as missing, and a start offset inside the source: \<open>parsePlaceholder\<close>
  returns, with a node that starts at the start offset and ends at or before the end of
  the source. It looks for the closing brace at a position \<open>pos\<close> after the body and
  the whitespace that follows it, and up to there it has recorded no \<open>missing-char\<close>
  error for the closing brace. When the source ends at \<open>pos\<close>, the node ends at the end
  of the source and exactly one error is added, the \<open>missing-char\<close> error for the
  closing brace at the end of the source. When a character stands at \<open>pos\<close> and no
  closing brace follows, the node ends at the end of the source and no \<open>missing-char\<close>
  error for the closing brace is recorded at all: the \<open>parse-error\<close> of a junk body is
  widened to the end of the source, and for any other body one \<open>extra-content\<close> error
  from \<open>pos\<close> to the end of the source is added.
\<close>

theorem parsePlaceholder_terminates:
  assumes L: "lexer_ok L" and start: "start < length src"
  shows "\<exists>body pos errs0 node errs.
        before_close L src start errors = Some (body, pos, errs0)
      \<and> parsePlaceholder L src start errors = Some (node, errs)
      \<and> placeholder_start node = start \<and> placeholder_end node \<le> length src
      \<and> start < pos \<and> pos \<le> length src
      \<and> missing_braces errs0 = missing_braces errors
      \<and> (pos = length src \<longrightarrow>
            placeholder_end node = length src
          \<and> errs = errs0 @ [MissingChar CHR ''}'' (length src)])
      \<and> (pos < length src \<and> CHR ''}'' \<notin> set (drop pos src) \<longrightarrow>
            placeholder_end node = length src
          \<and> missing_braces errs = missing_braces errors
          \<and> (if is_junk body
              then \<exists>es s. errs0 = es @ [ParseErr s s] \<and> errs = es @ [ParseErr s (length src)]
              else errs = errs0 @ [ExtraContent pos (length src)]))"
proof -
  define pos0 where "pos0 = start + 1 + whitespaces L src (start + 1)"
  have p0: "pos0 \<le> length src" "Suc start \<le> pos0"
    using lexer_ok_ws [OF L, of "start + 1" src] start by (simp_all add: pos0_def)
  obtain arg pos1 errors1 where pa: "parseArg L src pos0 errors = (arg, pos1, errors1)"
    by (cases "parseArg L src pos0 errors")
  from parseArg_range [OF L p0(1) pa]
  obtain new1 where p1: "pos0 \<le> pos1" "pos1 \<le> length src"
    and e1: "errors1 = errors @ new1" "pushed_ok pos0 new1"
    by blast
  have mb1: "missing_braces errors1 = missing_braces errors"
    using e1 pushed_ok_braces by simp
  define pos2 where "pos2 = pos1 + whitespaces L src pos1"
  have p2: "pos2 \<le> length src" "pos1 \<le> pos2"
    using lexer_ok_ws [OF L p1(2)] by (simp_all add: pos2_def)
  from parseBody_range [OF L p2(1), of arg errors1]
  obtain body pos3 errors3 j new3 where
    pb: "parseBody L src pos2 arg errors1 = Some (body, pos3, errors3, j)"
    and p3: "pos2 \<le> pos3" "pos3 \<le> length src"
    and junk: "(\<exists>s e t. body = JunkParsed s e t) \<longrightarrow>
                 j = Some (length errors1) \<and> errors3 = errors1 @ [ParseErr pos2 pos2]"
    and e3: "if char_at src pos2 \<in> {Some CHR '':'', Some CHR ''+'', Some CHR ''-''}
          then errors3 = unshifted (char_at src pos2) arg @ errors1 @ new3
          else errors3 = errors1 @ new3" "pushed_ok pos2 new3"
    by blast
  have mb3: "missing_braces errors3 = missing_braces errors"
    using e3 pushed_ok_braces [OF e3(2)] mb1 by (simp split: if_splits)
  have junk': "is_junk body \<longrightarrow>
                 j = Some (length errors1) \<and> errors3 = errors1 @ [ParseErr pos2 pos2]"
    using junk by (cases body) simp_all
  define pos where "pos = pos3 + whitespaces L src pos3"
  have p: "pos \<le> length src" "pos3 \<le> pos"
    using lexer_ok_ws [OF L p3(2)] by (simp_all add: pos_def)
  obtain node errs where cl: "closePlaceholder L src start body pos3 errors3 j = (node, errs)"
    by (cases "closePlaceholder L src start body pos3 errors3 j")
  have bc: "before_close L src start errors = Some (body, pos, errors3)"
    unfolding before_close_def Let_def pos0_def [symmetric]
    by (simp add: pa pos2_def [symmetric] pb pos_def)
  have pp: "parsePlaceholder L src start errors = Some (node, errs)"
    unfolding parsePlaceholder_def Let_def pos0_def [symmetric]
    by (simp add: pa pos2_def [symmetric] pb cl)
  note r = closePlaceholder_range [OF L p3(2) junk cl]
  note c = closePlaceholder_cases [OF L pos_def junk' cl]
  have a: "placeholder_start node = start" "placeholder_end node \<le> length src"
    using r by simp_all
  have lt: "start < pos" using p0(2) p1(1) p2(2) p3(1) p(2) by simp
  have full: "placeholder_end node = length src
          \<and> errs = errors3 @ [MissingChar CHR ''}'' (length src)]" if "pos = length src"
    using c that by simp
  have cut: "placeholder_end node = length src
          \<and> missing_braces errs = missing_braces errors
          \<and> (if is_junk body
              then \<exists>es s. errors3 = es @ [ParseErr s s] \<and> errs = es @ [ParseErr s (length src)]
              else errs = errors3 @ [ExtraContent pos (length src)])"
    if "pos < length src" "CHR ''}'' \<notin> set (drop pos src)"
  proof (cases "is_junk body")
    case True
    with junk' have e: "errors3 = errors1 @ [ParseErr pos2 pos2]" by simp
    from c that True have "placeholder_end node = length src"
      "errs = errors1 @ [ParseErr pos2 (length src)]" by simp_all
    with True e mb1 show ?thesis by simp
  next
    case False
    with c that have "placeholder_end node = length src"
      "errs = errors3 @ [ExtraContent pos (length src)]" by simp_all
    with False mb3 show ?thesis by simp
  qed
  from bc pp a lt p(1) mb3 full cut show ?thesis by blast
qed

text \<open>
  With the sample helpers: the truncated \<open>{:f a=b\<close>; \<open>{(a}b)\<close>, where the only
  closing brace is inside the literal; and \<open>{$x abc\<close>, where \<open>abc\<close> stands in place
  of the closing brace.
\<close>

theorem parsePlaceholder_terminates_witness:
  "lexer_ok sample_lexer
   \<and> before_close sample_lexer ''{:f a=b'' 0 []
       = Some (ExpressionParsed None 1 7 ''f'' [OptionParsed 4 7 ''a'' (NmtokenParsed 6 7 ''b'')],
               7, [])
   \<and> parsePlaceholder sample_lexer ''{:f a=b'' 0 []
       = Some (PlaceholderParsed 0 7
                (ExpressionParsed None 1 7 ''f'' [OptionParsed 4 7 ''a'' (NmtokenParsed 6 7 ''b'')]),
               [MissingChar CHR ''}'' 7])
   \<and> before_close sample_lexer ''{(a}b)'' 0 []
       = Some (OperandBody (LiteralParsed 1 6 ''a}b''), 6, [])
   \<and> parsePlaceholder sample_lexer ''{(a}b)'' 0 []
       = Some (PlaceholderParsed 0 6 (OperandBody (LiteralParsed 1 6 ''a}b'')),
               [MissingChar CHR ''}'' 6])
   \<and> before_close sample_lexer ''{$x abc'' 0 []
       = Some (OperandBody (VariableRefParsed 1 3 ''x''), 4, [])
   \<and> CHR ''}'' \<notin> set (drop 4 ''{$x abc'')
   \<and> parsePlaceholder sample_lexer ''{$x abc'' 0 []
       = Some (PlaceholderParsed 0 7 (OperandBody (VariableRefParsed 1 3 ''x'')),
               [ExtraContent 4 7])"
  using parsePlaceholder_terminates [OF sample_lexer_ok, of 0 "''{:f a=b''" "[]"]
    parsePlaceholder_terminates [OF sample_lexer_ok, of 0 "''{(a}b)''" "[]"]
    parsePlaceholder_terminates [OF sample_lexer_ok, of 0 "''{$x abc''" "[]"]
    sample_lexer_ok sample_truncated_state sample_truncated sample_brace_in_literal
    sample_truncated_extra
  by simp

text \<open>
  The truncated placeholder \<open>{a\<close> gives one widened \<open>parse-error\<close> and no
  \<open>missing-char\<close> error at all, and the truncated \<open>{$x abc\<close> gives one
  \<open>extra-content\<close> error and no \<open>missing-char\<close> error either; the truncated \<open>{(a\<close>
  gives two \<open>missing-char\<close> errors at the end of the source, one of them for the
  parenthesis; and at a start offset that is not inside the source the node ends after
  the end of the source.
\<close>

theorem parsePlaceholder_truncated_junk:
  "CHR ''}'' \<notin> set ''{a''
   \<and> parsePlaceholder sample_lexer ''{a'' 0 []
       = Some (PlaceholderParsed 0 2 (JunkParsed 1 2 ''a''), [ParseErr 1 2])
   \<and> CHR ''}'' \<notin> set ''{$x abc''
   \<and> parsePlaceholder sample_lexer ''{$x abc'' 0 []
       = Some (PlaceholderParsed 0 7 (OperandBody (VariableRefParsed 1 3 ''x'')),
               [ExtraContent 4 7])
   \<and> parsePlaceholder sample_lexer ''{(a'' 0 []
       = Some (PlaceholderParsed 0 3 (OperandBody (LiteralParsed 1 3 ''a'')),
               [MissingChar CHR '')'' 3, MissingChar CHR ''}'' 3])
   \<and> parsePlaceholder sample_lexer [] 0 []
       = Some (PlaceholderParsed 0 1 (JunkParsed 1 1 []),
               [ParseErr 1 1, MissingChar CHR ''}'' 1])
   \<and> length ([] :: string) < placeholder_end (PlaceholderParsed 0 1 (JunkParsed 1 1 []))"
  using sample_truncated_junk sample_truncated_extra sample_truncated_literal
    sample_past_the_end
  by simp

text \<open>
  Claim C5. With helpers as for claim C4, for which moreover no whitespace follows
  skipped whitespace and no name starts with the closing brace: for every well-formed
  placeholder, that is the opening brace, then an operand, an operand with an annotation,
  an annotation, a \<open>+\<close> markup with its options or a \<open>-\<close> markup without options, then
  the closing brace, all of tokens that the helpers accept without an error,
  \<open>parsePlaceholder\<close> returns the error list it was given (the empty one for the empty
  one) and a node that spans from the opening brace to the closing brace inclusive.
\<close>

theorem parsePlaceholder_well_formed:
  assumes L: "lexer_ok L" and T: "lexer_tokens L" and wf: "well_formed L src start stop"
  shows "\<exists>body. parsePlaceholder L src start errors
                  = Some (PlaceholderParsed start stop body, errors)
      \<and> char_at src start = Some CHR ''{'' \<and> char_at src (stop - 1) = Some CHR ''}''"
proof -
  define p where "p = skip_ws L src (start + 1)"
  from wf obtain q where open_brace: "char_at src start = Some CHR ''{''"
    and body: "body_at L src p q"
    and close: "char_at src (skip_ws L src q) = Some CHR ''}''"
    and stop: "stop = skip_ws L src q + 1"
    by (auto simp: well_formed_def p_def)
  have p0: "start + 1 + whitespaces L src (start + 1) = p"
    by (simp add: p_def skip_ws_def)
  have idem: "p + whitespaces L src p = p"
    using skip_ws_idem [OF T, of src "start + 1"] by (simp add: p_def)
  have idem': "skip_ws L src (skip_ws L src x) = skip_ws L src x" for x
    using skip_ws_idem [OF T, of src x] by (simp add: skip_ws_def)
  have nosig: "char_at src (skip_ws L src q) \<notin> {Some CHR '':'', Some CHR ''+'', Some CHR ''-''}"
    using close by simp
  have main: "\<exists>body. parsePlaceholder L src start errors
                  = Some (PlaceholderParsed start stop body, errors)"
  proof -
    from body consider
      (operand) "operand_at L src p q"
      | (expression) r where "operand_at L src p r" "annotation_at L src (skip_ws L src r) q"
      | (annotation) "annotation_at L src p q"
      | (markup_start) "markup_start_at L src p q"
      | (markup_end) "markup_end_at L src p q"
      by (auto simp: body_at_def)
    then show ?thesis
    proof cases
      case operand
      from parseArg_operand [OF operand, of errors]
      obtain v where pa: "parseArg L src p errors = (Some v, q, errors)" by blast
      have pb: "parseBody L src (skip_ws L src q) (Some v) errors
                  = Some (OperandBody v, skip_ws L src q, errors, None)"
        using nosig by (simp add: parseBody_def)
      have cl: "closePlaceholder L src start (OperandBody v) (skip_ws L src q) errors None
                  = (PlaceholderParsed start stop (OperandBody v), errors)"
        using closePlaceholder_closed [of src L "skip_ws L src q" start "OperandBody v" errors None]
          close by (simp add: idem' stop)
      show ?thesis
        unfolding parsePlaceholder_def Let_def p0
        using pa pb cl by (simp add: skip_ws_def [symmetric])
    next
      case expression
      from parseArg_operand [OF expression(1), of errors]
      obtain v where pa: "parseArg L src p errors = (Some v, r, errors)" by blast
      from parseExpressionOrMarkup_annotation [OF L T expression(2) close, of "Some v" errors]
      obtain nm opts where pe: "parseExpressionOrMarkup L src (skip_ws L src r) (Some v) errors
           = Some (ExpressionParsed (Some v) (skip_ws L src r) q nm opts, errors)"
        by blast
      from expression(2) have sg: "char_at src (skip_ws L src r) = Some CHR '':''"
        by (simp add: annotation_at_def)
      have pb: "parseBody L src (skip_ws L src r) (Some v) errors
                  = Some (ExpressionParsed (Some v) (skip_ws L src r) q nm opts, q, errors, None)"
        using sg pe by (simp add: parseBody_def)
      show ?thesis
        unfolding parsePlaceholder_def Let_def p0
        using pa pb closePlaceholder_closed [OF close]
        by (simp add: skip_ws_def [symmetric] stop)
    next
      case annotation
      then have sg: "char_at src p = Some CHR '':''" by (simp add: annotation_at_def)
      from parseExpressionOrMarkup_annotation [OF L T annotation close, of None errors]
      obtain nm opts where pe: "parseExpressionOrMarkup L src p None errors
           = Some (ExpressionParsed None p q nm opts, errors)"
        by blast
      have pa: "parseArg L src p errors = (None, p, errors)"
        using sg by (simp add: parseArg_none)
      have pb: "parseBody L src p None errors
                  = Some (ExpressionParsed None p q nm opts, q, errors, None)"
        using sg pe by (simp add: parseBody_def)
      show ?thesis
        unfolding parsePlaceholder_def Let_def p0
        using pa pb closePlaceholder_closed [OF close]
        by (simp add: idem stop)
    next
      case markup_start
      then have sg: "char_at src p = Some CHR ''+''" by (simp add: markup_start_at_def)
      from parseExpressionOrMarkup_markup_start [OF L T markup_start close, of errors]
      obtain nm opts where pe: "parseExpressionOrMarkup L src p None errors
           = Some (MarkupStartParsed p q nm opts, errors)"
        by blast
      have pa: "parseArg L src p errors = (None, p, errors)"
        using sg by (simp add: parseArg_none)
      have pb: "parseBody L src p None errors
                  = Some (MarkupStartParsed p q nm opts, q, errors, None)"
        using sg pe by (simp add: parseBody_def)
      show ?thesis
        unfolding parsePlaceholder_def Let_def p0
        using pa pb closePlaceholder_closed [OF close]
        by (simp add: idem stop)
    next
      case markup_end
      then have sg: "char_at src p = Some CHR ''-''" by (simp add: markup_end_at_def)
      from parseExpressionOrMarkup_markup_end [OF L T markup_end close, of errors]
      obtain nm where pe: "parseExpressionOrMarkup L src p None errors
           = Some (MarkupEndParsed p q nm, errors)"
        by blast
      have pa: "parseArg L src p errors = (None, p, errors)"
        using sg by (simp add: parseArg_none)
      have pb: "parseBody L src p None errors
                  = Some (MarkupEndParsed p q nm, q, errors, None)"
        using sg pe by (simp add: parseBody_def)
      show ?thesis
        unfolding parsePlaceholder_def Let_def p0
        using pa pb closePlaceholder_closed [OF close]
        by (simp add: idem stop)
    qed
  qed
  from main open_brace close stop show ?thesis by simp
qed

text \<open>The well-formed placeholder \<open>{$x :f a=b}\<close>, with the sample helpers.\<close>

theorem parsePlaceholder_well_formed_witness:
  "lexer_ok sample_lexer \<and> lexer_tokens sample_lexer
   \<and> well_formed sample_lexer ''{$x :f a=b}'' 0 11
   \<and> parsePlaceholder sample_lexer ''{$x :f a=b}'' 0 []
       = Some (PlaceholderParsed 0 11
                (ExpressionParsed (Some (VariableRefParsed 1 3 ''x'')) 4 10 ''f''
                   [OptionParsed 7 10 ''a'' (NmtokenParsed 9 10 ''b'')]), [])"
  using parsePlaceholder_well_formed
      [OF sample_lexer_ok sample_lexer_tokens sample_expression_well_formed, of "[]"]
    sample_lexer_ok sample_lexer_tokens sample_expression_well_formed sample_expression
  by simp

text \<open>
  The grammar as the specification writes it has more placeholders than the well-formed
  ones, and for these \<open>parsePlaceholder\<close> reports an error: an operand before a markup
  tail, options after a \<open>-\<close> tail, and the empty placeholder.
\<close>

theorem parsePlaceholder_spec_grammar_errors:
  "spec_well_formed sample_lexer ''{$x +b}'' 0 7
   \<and> parsePlaceholder sample_lexer ''{$x +b}'' 0 []
       = Some (PlaceholderParsed 0 7 (MarkupStartParsed 4 6 ''b'' []), [ExtraContent 1 3])
   \<and> spec_well_formed sample_lexer ''{-b a=c}'' 0 8
   \<and> parsePlaceholder sample_lexer ''{-b a=c}'' 0 []
       = Some (PlaceholderParsed 0 8 (MarkupEndParsed 1 7 ''b''), [ExtraContent 4 7])
   \<and> spec_well_formed sample_lexer ''{}'' 0 2
   \<and> parsePlaceholder sample_lexer ''{}'' 0 []
       = Some (PlaceholderParsed 0 2 (JunkParsed 1 1 ''}''), [ParseErr 1 1])"
  using sample_spec_operand_markup sample_operand_markup sample_spec_markup_end_options
    sample_markup_end_options sample_spec_empty sample_empty
  by simp

text \<open>
  Claim C9. With helpers as for claim C4: when an operand is followed, after optional
  whitespace, by a \<open>+\<close> or \<open>-\<close> markup tail, \<open>parsePlaceholder\<close> records an
  \<open>extra-content\<close> error that spans exactly the operand and puts it at the front of the
  error list: before the errors recorded before the call, which keep their order, and
  before the errors recorded for this placeholder, none of which starts before the
  operand. The node returned is a markup start or a markup end, neither of which has an
  operand.
\<close>

theorem parsePlaceholder_operand_before_markup:
  assumes L: "lexer_ok L" and start: "start < length src"
    and p: "p = start + 1 + whitespaces L src (start + 1)"
    and operand: "char_at src p = Some CHR ''('' \<and> v = fst (parseLiteral L src p) \<or>
                  char_at src p = Some CHR ''$'' \<and> v = fst (parseVariable L src p)"
    and sigil: "char_at src (value_end v + whitespaces L src (value_end v))
                  \<in> {Some CHR ''+'', Some CHR ''-''}"
  shows "\<exists>node rest. parsePlaceholder L src start errors
             = Some (node, ExtraContent (value_start v) (value_end v) # errors @ rest)
      \<and> value_start v = p
      \<and> (\<forall>e \<in> set rest. value_start v \<le> error_start e)
      \<and> ((\<exists>s e nm opts. placeholder_body node = MarkupStartParsed s e nm opts)
         \<or> (\<exists>s e nm. placeholder_body node = MarkupEndParsed s e nm))"
proof -
  have p0: "p \<le> length src"
    using lexer_ok_ws [OF L, of "start + 1" src] start by (simp add: p)
  obtain pushed where pa: "parseArg L src p errors = (Some v, value_end v, errors @ pushed)"
    using operand
    by (cases "parseLiteral L src p"; cases "parseVariable L src p") (auto simp: parseArg_def)
  from parseArg_range [OF L p0 pa]
  have p1: "p \<le> value_end v" "value_end v \<le> length src" "value_start v = p"
    and e1: "pushed_ok p pushed"
    by auto
  define pos2 where "pos2 = value_end v + whitespaces L src (value_end v)"
  have p2: "pos2 \<le> length src" "value_end v \<le> pos2"
    using lexer_ok_ws [OF L p1(2)] by (simp_all add: pos2_def)
  have sg: "char_at src pos2 \<in> {Some CHR ''+'', Some CHR ''-''}"
    using sigil by (simp add: pos2_def)
  then have sg': "char_at src pos2 \<in> {Some CHR '':'', Some CHR ''+'', Some CHR ''-''}"
    "char_at src pos2 \<noteq> Some CHR '':''"
    by auto
  from parseBody_range [OF L p2(1), of "Some v" "errors @ pushed"]
  obtain body pos3 errors3 j new3 where
    pb: "parseBody L src pos2 (Some v) (errors @ pushed) = Some (body, pos3, errors3, j)"
    and p3: "pos2 \<le> pos3" "pos3 \<le> length src"
    and junk: "(\<exists>s e t. body = JunkParsed s e t) \<longrightarrow>
                 j = Some (length (errors @ pushed)) \<and> errors3 = (errors @ pushed) @ [ParseErr pos2 pos2]"
    and e3: "if char_at src pos2 \<in> {Some CHR '':'', Some CHR ''+'', Some CHR ''-''}
          then errors3 = unshifted (char_at src pos2) (Some v) @ (errors @ pushed) @ new3
          else errors3 = (errors @ pushed) @ new3" "pushed_ok pos2 new3"
    and shape: "char_at src pos2 = Some CHR ''+'' \<longrightarrow> (\<exists>s e nm opts. body = MarkupStartParsed s e nm opts)"
      "char_at src pos2 = Some CHR ''-'' \<longrightarrow> (\<exists>s e nm. body = MarkupEndParsed s e nm)"
    by blast
  have markup: "(\<exists>s e nm opts. body = MarkupStartParsed s e nm opts)
         \<or> (\<exists>s e nm. body = MarkupEndParsed s e nm)"
    using sg shape by auto
  then have nj: "\<forall>s e t. body \<noteq> JunkParsed s e t" by auto
  have errors3: "errors3 = ExtraContent (value_start v) (value_end v) # errors @ pushed @ new3"
    using e3(1) sg' by (simp add: unshifted_def)
  obtain node errs where cl: "closePlaceholder L src start body pos3 errors3 j = (node, errs)"
    by (cases "closePlaceholder L src start body pos3 errors3 j")
  have pp: "parsePlaceholder L src start errors = Some (node, errs)"
    unfolding parsePlaceholder_def Let_def p [symmetric]
    by (simp add: pa pos2_def [symmetric] pb cl)
  from closePlaceholder_range [OF L p3(2) junk cl] nj
  obtain new4 where c: "placeholder_body node = body" "errs = errors3 @ new4"
    "\<forall>e \<in> set new4. pos3 \<le> error_start e"
    by blast
  define rest where "rest = pushed @ new3 @ new4"
  have errs: "errs = ExtraContent (value_start v) (value_end v) # errors @ rest"
    using c(2) errors3 by (simp add: rest_def)
  have le: "p \<le> pos2" "p \<le> pos3" using p1(1) p2(2) p3(1) by simp_all
  have "p \<le> error_start e" if "e \<in> set rest" for e
    using that pushed_ok_starts [OF e1, of e] pushed_ok_starts [OF e3(2), of e] c(3) le
    by (auto simp: rest_def)
  with pp errs p1(3) c(1) markup show ?thesis
    by (intro exI [of _ node] exI [of _ rest]) simp
qed

text \<open>The placeholder \<open>{$x +b}\<close>, with the sample helpers.\<close>

theorem parsePlaceholder_operand_before_markup_witness:
  "lexer_ok sample_lexer
   \<and> char_at ''{$x +b}'' 1 = Some CHR ''$''
   \<and> fst (parseVariable sample_lexer ''{$x +b}'' 1) = VariableRefParsed 1 3 ''x''
   \<and> char_at ''{$x +b}'' 4 = Some CHR ''+''
   \<and> (\<exists>node rest. parsePlaceholder sample_lexer ''{$x +b}'' 0 []
          = Some (node, ExtraContent 1 3 # [] @ rest)
        \<and> placeholder_body node = MarkupStartParsed 4 6 ''b'' [] \<and> rest = [])"
proof -
  have p: "(1::nat) = 0 + 1 + whitespaces sample_lexer ''{$x +b}'' (0 + 1)"
    and c: "char_at ''{$x +b}'' 1 = Some CHR ''$''"
    and v: "VariableRefParsed 1 3 ''x'' = fst (parseVariable sample_lexer ''{$x +b}'' 1)"
    and s: "char_at ''{$x +b}'' (value_end (VariableRefParsed 1 3 ''x'')
              + whitespaces sample_lexer ''{$x +b}'' (value_end (VariableRefParsed 1 3 ''x'')))
            = Some CHR ''+''"
    by (simp_all add: sample_defs)
  from c v have operand:
    "char_at ''{$x +b}'' 1 = Some CHR ''('' \<and>
       VariableRefParsed 1 3 ''x'' = fst (parseLiteral sample_lexer ''{$x +b}'' 1) \<or>
     char_at ''{$x +b}'' 1 = Some CHR ''$'' \<and>
       VariableRefParsed 1 3 ''x'' = fst (parseVariable sample_lexer ''{$x +b}'' 1)"
    by simp
  from s have sigil:
    "char_at ''{$x +b}'' (value_end (VariableRefParsed 1 3 ''x'')
       + whitespaces sample_lexer ''{$x +b}'' (value_end (VariableRefParsed 1 3 ''x'')))
     \<in> {Some CHR ''+'', Some CHR ''-''}"
    by simp
  have s4: "char_at ''{$x +b}'' 4 = Some CHR ''+''"
    by (simp add: sample_defs)
  from parsePlaceholder_operand_before_markup
         [OF sample_lexer_ok _ p operand sigil, of "[]"]
    sample_lexer_ok c v [symmetric] s4 sample_operand_markup
  show ?thesis by simp
qed

text \<open>
  In \<open>{a}{$x +b}\<close> the first placeholder leaves a \<open>parse-error\<close> that starts at 1, and
  the second puts its \<open>extra-content\<close> error, which starts at 4, before it. Within one
  placeholder, \<open>{$x -b a}\<close>, the last error starts at 7, after one that starts at 8. So
  the list is not ordered by start offset.
\<close>

theorem parsePlaceholder_errors_not_sorted:
  "parsePlaceholder sample_lexer ''{a}{$x +b}'' 0 []
     = Some (PlaceholderParsed 0 2 (JunkParsed 1 2 ''a''), [ParseErr 1 2])
   \<and> parsePlaceholder sample_lexer ''{a}{$x +b}'' 3 [ParseErr 1 2]
     = Some (PlaceholderParsed 3 10 (MarkupStartParsed 7 9 ''b'' []),
             [ExtraContent 4 6, ParseErr 1 2])
   \<and> \<not> sorted (map error_start [ExtraContent 4 6, ParseErr 1 2])
   \<and> parsePlaceholder sample_lexer ''{$x -b a}'' 0 []
     = Some (PlaceholderParsed 0 9 (MarkupEndParsed 4 8 ''b''),
             [ExtraContent 1 3, MissingChar CHR ''='' 8, EmptyToken 8 None, ExtraContent 7 8])"
  using sample_first_placeholder sample_second_placeholder sample_operand_markup_end by simp


end
